theory Spec2Isabelle
  imports Main "HOL-Library.AList"
begin

section \<open>Python values shared by the scripts\<close>

text \<open>
  The scripts under \<^verbatim>\<open>scripts/\<close> are Python programs whose behaviour is a sequence of
  effects: imports, prints, subprocess calls, downloads and file-system writes.  Every
  effect is made explicit here.  External collaborators (the import system, the network,
  \<^verbatim>\<open>torch\<close>, \<^verbatim>\<open>onnx\<close>, \<^verbatim>\<open>tensorflowjs\<close>) are parameters of the model: a theorem that
  quantifies over them holds for every behaviour they may show.
\<close>

text \<open>
  The exceptions the scripts can meet.  \<^verbatim>\<open>except Exception\<close> catches every one of them
  except \<^verbatim>\<open>KeyboardInterrupt\<close> and \<^verbatim>\<open>SystemExit\<close> (what \<^verbatim>\<open>sys.exit(n)\<close> raises), which
  derive from \<^verbatim>\<open>BaseException\<close> only.
\<close>

datatype exc =
    ImportError
  | FileExistsError
  | FileNotFoundError
  | NotADirectoryError
  | IsADirectoryError
  | SameFileError
  | CalledProcessError
  | ZeroDivisionError
  | OtherException string
  | KeyboardInterrupt
  | SystemExit nat

fun is_Exception :: "exc \<Rightarrow> bool" where
  "is_Exception KeyboardInterrupt = False"
| "is_Exception (SystemExit n) = False"
| "is_Exception e = True"

text \<open>
  The exit status of the interpreter when a script ends: 0 when it runs to its end, the
  argument of \<^verbatim>\<open>sys.exit\<close>, and 1 for any other exception nothing caught.
\<close>

fun exit_status :: "exc + 'a \<Rightarrow> nat" where
  "exit_status (Inr v) = 0"
| "exit_status (Inl (SystemExit n)) = n"
| "exit_status (Inl e) = 1"

text \<open>What a script does to the world outside the file system, in order.\<close>

datatype event =
    Import string
  | Print string
  | Run "string list"

fun commands_run :: "event list \<Rightarrow> string list list" where
  "commands_run [] = []"
| "commands_run (Run cmd # es) = cmd # commands_run es"
| "commands_run (_ # es) = commands_run es"

fun imports_tried :: "event list \<Rightarrow> string list" where
  "imports_tried [] = []"
| "imports_tried (Import m # es) = m # imports_tried es"
| "imports_tried (_ # es) = imports_tried es"

fun printed :: "event list \<Rightarrow> string list" where
  "printed [] = []"
| "printed (Print s # es) = s # printed es"
| "printed (_ # es) = printed es"

text \<open>\<^verbatim>\<open>sep.join(xs)\<close> and \<^verbatim>\<open>s.replace(a, b)\<close> for one-character \<^verbatim>\<open>a\<close> and \<^verbatim>\<open>b\<close>.\<close>

fun join :: "string \<Rightarrow> string list \<Rightarrow> string" where
  "join sep [] = []"
| "join sep [x] = x"
| "join sep (x # y # ys) = x @ sep @ join sep (y # ys)"

definition replace_char :: "char \<Rightarrow> char \<Rightarrow> string \<Rightarrow> string" where
  "replace_char a b s = map (\<lambda>c. if c = a then b else c) s"


section \<open>\<^verbatim>\<open>convert_open_unmix.py\<close>\<close>

subsection \<open>\<^verbatim>\<open>check_dependencies\<close>\<close>

text \<open>
  \<^verbatim>\<open>required = ['tensorflowjs', 'torch', 'onnx', 'onnx-tf']\<close>.  The loop imports
  \<^verbatim>\<open>dep.replace('-', '_')\<close> for each entry; only \<^verbatim>\<open>ImportError\<close> is caught, any other
  exception of the import leaves the function.  The import system is the parameter
  \<open>imp\<close>: \<open>None\<close> when the module imports, \<open>Some e\<close> when importing it raises \<open>e\<close>.
\<close>

definition required :: "string list" where
  "required = [''tensorflowjs'', ''torch'', ''onnx'', ''onnx-tf'']"

fun check_loop ::
  "(string \<Rightarrow> exc option) \<Rightarrow> string list \<Rightarrow> string list \<Rightarrow> event list
    \<Rightarrow> (exc + string list) \<times> event list" where
  "check_loop imp [] missing ev = (Inr missing, ev)"
| "check_loop imp (dep # deps) missing ev =
     (let m = replace_char CHR ''-'' CHR ''_'' dep; ev' = ev @ [Import m]
      in case imp m of
           None \<Rightarrow> check_loop imp deps missing ev'
         | Some e \<Rightarrow>
             if e = ImportError then check_loop imp deps (missing @ [dep]) ev'
             else (Inl e, ev'))"

definition check_dependencies ::
  "(string \<Rightarrow> exc option) \<Rightarrow> (exc + bool) \<times> event list" where
  "check_dependencies imp =
     (case check_loop imp required [] [] of
        (Inl e, ev) \<Rightarrow> (Inl e, ev)
      | (Inr missing, ev) \<Rightarrow>
          if missing \<noteq> [] then
            (Inr False,
             ev @ [Print (''Missing dependencies: '' @ join '', '' missing),
                   Print [CHR 0x0A, CHR ''I'', CHR ''n'', CHR ''s'', CHR ''t'', CHR ''a'',
                          CHR ''l'', CHR ''l'', CHR '' '', CHR ''w'', CHR ''i'', CHR ''t'',
                          CHR ''h'', CHR '':''],
                   Print (''pip install '' @ join '' '' missing)])
          else (Inr True, ev))"

text \<open>
  The import system in which exactly the modules of \<open>ms\<close> fail to import
  (with \<^verbatim>\<open>ImportError\<close>) and every other module imports.
\<close>

definition import_failing :: "string list \<Rightarrow> string \<Rightarrow> exc option" where
  "import_failing ms m = (if m \<in> set ms then Some ImportError else None)"

subsection \<open>\<^verbatim>\<open>convert_onnx_to_tfjs\<close>\<close>

text \<open>
  The function builds one command line and hands it to \<^verbatim>\<open>subprocess.run(cmd, check=True)\<close>.
  The process is the parameter \<open>run\<close>: it returns the exit status or raises (the
  executable may be missing); \<^verbatim>\<open>check=True\<close> turns a non-zero status into
  \<^verbatim>\<open>CalledProcessError\<close>.  The function has two parameters, the two paths, and no other.
\<close>

definition convert_onnx_to_tfjs ::
  "(string list \<Rightarrow> exc + int) \<Rightarrow> string \<Rightarrow> string \<Rightarrow> (exc + unit) \<times> event list" where
  "convert_onnx_to_tfjs run onnx_path output_path =
     (let cmd = [''tensorflowjs_converter'',
                 ''--input_format=onnx'',
                 ''--output_format=tfjs_graph_model'',
                 ''--quantize_float16'',
                 onnx_path,
                 output_path];
          ev = [Print (''Converting '' @ onnx_path @ '' to TensorFlow.js...''), Run cmd]
      in case run cmd of
           Inl e \<Rightarrow> (Inl e, ev)
         | Inr rc \<Rightarrow>
             if rc \<noteq> 0 then (Inl CalledProcessError, ev)
             else (Inr (), ev @ [Print (''Model converted to '' @ output_path)]))"

text \<open>
  The options by which a \<^verbatim>\<open>tensorflowjs_converter\<close> command line asks for reduced weight
  precision; a command line with none of them converts at full precision.
\<close>

definition quantization_options :: "string list" where
  "quantization_options =
     [''--quantize_float16'', ''--quantize_uint8'', ''--quantize_uint16'',
      ''--quantization_bytes'']"

definition requests_quantization :: "string list \<Rightarrow> bool" where
  "requests_quantization cmd =
     list_ex (\<lambda>a. list_ex (\<lambda>q. take (length q) a = q) quantization_options) cmd"


section \<open>\<^verbatim>\<open>download_models.py\<close>: the progress callback\<close>

text \<open>
  \<^verbatim>\<open>show_progress(block_num, block_size, total_size)\<close> computes
  \<^verbatim>\<open>min(100, (downloaded * 100) // total_size) if total_size > 0 else 0\<close>.
  Python's \<^verbatim>\<open>//\<close> on integers is floor division and raises on a zero divisor; the
  model returns the percentage printed together with the divisors of the divisions it
  carried out.
\<close>

definition py_floordiv :: "int \<Rightarrow> int \<Rightarrow> exc + int" where
  "py_floordiv a b = (if b = 0 then Inl ZeroDivisionError else Inr (a div b))"

definition show_progress :: "int \<Rightarrow> int \<Rightarrow> int \<Rightarrow> (exc + int) \<times> int list" where
  "show_progress block_num block_size total_size =
     (let downloaded = block_num * block_size
      in if total_size > 0 then
           (case py_floordiv (downloaded * 100) total_size of
              Inl e \<Rightarrow> (Inl e, [total_size])
            | Inr q \<Rightarrow> (Inr (min 100 q), [total_size]))
         else (Inr 0, []))"


section \<open>Models and export calls\<close>

text \<open>
  Modelled from the spec: the attributes of a ModelHandle that the Shape Negotiator of the
  specification would consult, an explicitly declared input shape and a known
  architecture family.  The model objects of the scripts are opaque \<^verbatim>\<open>torch\<close> modules
  (\<^verbatim>\<open>openunmix.umx(...)\<close>, \<^verbatim>\<open>separator.target_models['vocals']\<close>); the scripts hand them
  to \<^verbatim>\<open>torch.onnx.export\<close> and read none of their attributes.
\<close>

record model_handle =
  weights :: string
  declared_input_shape :: "nat list option"
  architecture_family :: "string option"

text \<open>A path is the list of its components; \<^verbatim>\<open>a / b\<close> appends a component.\<close>

type_synonym path = "string list"

text \<open>
  One call of \<^verbatim>\<open>torch.onnx.export\<close>: the model, the shape of the \<^verbatim>\<open>torch.randn\<close> tensor
  traced through it, the file written, and the keyword arguments.  \<^verbatim>\<open>dynamic_axes\<close> maps a
  tensor name to the axes declared dynamic, each with its label.
\<close>

record export_call =
  ec_model :: model_handle
  ec_dummy_input :: "nat list"
  ec_file :: path
  ec_input_names :: "string list"
  ec_output_names :: "string list"
  ec_dynamic_axes :: "(string \<times> (nat \<times> string) list) list"
  ec_opset_version :: nat
  ec_do_constant_folding :: "bool option"

text \<open>
  \<^verbatim>\<open>convert_open_unmix_2stems.py\<close>, \<^verbatim>\<open>convert_pytorch_to_onnx\<close>:
  \<^verbatim>\<open>dummy_input = torch.randn(1, 2, 44100)\<close>, commented as \<^verbatim>\<open>[batch, channels, time]\<close>.
\<close>

definition export_call_2stems :: "model_handle \<Rightarrow> path \<Rightarrow> string \<Rightarrow> export_call" where
  "export_call_2stems pytorch_model output_path stem_name =
     \<lparr> ec_model = pytorch_model,
       ec_dummy_input = [1, 2, 44100],
       ec_file = output_path @ [stem_name @ ''.onnx''],
       ec_input_names = [''audio''],
       ec_output_names = [''output''],
       ec_dynamic_axes = [(''audio'', [(2, ''time'')]), (''output'', [(2, ''time'')])],
       ec_opset_version = 11,
       ec_do_constant_folding = None \<rparr>"

definition input_layout_2stems :: "string list" where
  "input_layout_2stems = [''batch'', ''channels'', ''time'']"

text \<open>
  \<^verbatim>\<open>convert_umx_to_tfjs.py\<close>: \<^verbatim>\<open>dummy_input = torch.randn(1, 2974)\<close>, commented as
  batch size and feature dimension.
\<close>

definition export_call_umx_to_tfjs :: "model_handle \<Rightarrow> path \<Rightarrow> string \<Rightarrow> export_call" where
  "export_call_umx_to_tfjs model stem_dir stem_name =
     \<lparr> ec_model = model,
       ec_dummy_input = [1, 2974],
       ec_file = stem_dir @ [stem_name @ ''.onnx''],
       ec_input_names = [''magnitude_spectrogram''],
       ec_output_names = [''mask''],
       ec_dynamic_axes =
         [(''magnitude_spectrogram'', [(0, ''batch''), (1, ''features'')]),
          (''mask'', [(0, ''batch''), (1, ''features'')])],
       ec_opset_version = 11,
       ec_do_constant_folding = Some True \<rparr>"

definition input_layout_umx_to_tfjs :: "string list" where
  "input_layout_umx_to_tfjs = [''batch'', ''features'']"

text \<open>
  \<^verbatim>\<open>convert_to_onnx_only.py\<close>: \<^verbatim>\<open>dummy_input = torch.randn(1, 2, 2049, 10)\<close>, commented as
  \<^verbatim>\<open>[batch, channels, freq, time]\<close>, with "time varies" three lines above; the
  \<^verbatim>\<open>dynamic_axes\<close> are those of \<^verbatim>\<open>convert_umx_to_tfjs.py\<close>.
\<close>

definition export_call_onnx_only :: "model_handle \<Rightarrow> path \<Rightarrow> string \<Rightarrow> export_call" where
  "export_call_onnx_only model stem_dir stem_name =
     \<lparr> ec_model = model,
       ec_dummy_input = [1, 2, 2049, 10],
       ec_file = stem_dir @ [stem_name @ ''.onnx''],
       ec_input_names = [''magnitude_spectrogram''],
       ec_output_names = [''mask''],
       ec_dynamic_axes =
         [(''magnitude_spectrogram'', [(0, ''batch''), (1, ''features'')]),
          (''mask'', [(0, ''batch''), (1, ''features'')])],
       ec_opset_version = 11,
       ec_do_constant_folding = Some True \<rparr>"

definition input_layout_onnx_only :: "string list" where
  "input_layout_onnx_only = [''batch'', ''channels'', ''freq'', ''time'']"

text \<open>Whether a call declares an axis of a named tensor dynamic, and where time sits.\<close>

definition flagged_dynamic :: "export_call \<Rightarrow> string \<Rightarrow> nat \<Rightarrow> bool" where
  "flagged_dynamic c tensor axis =
     (case map_of (ec_dynamic_axes c) tensor of
        None \<Rightarrow> False
      | Some axes \<Rightarrow> axis \<in> set (map fst axes))"

definition time_axes :: "string list \<Rightarrow> nat list" where
  "time_axes layout = filter (\<lambda>i. layout ! i = ''time'') [0 ..< length layout]"

text \<open>A process that exits with status 0, and a model that declares nothing.\<close>

definition process_succeeds :: "string list \<Rightarrow> exc + int" where
  "process_succeeds cmd = Inr 0"

definition undeclared_model :: model_handle where
  "undeclared_model =
     \<lparr> weights = ''w'', declared_input_shape = None, architecture_family = None \<rparr>"


section \<open>The file system\<close>

text \<open>
  The file system is an association list from paths (relative to the working directory,
  the empty path) to nodes, in the order in which entries were created; a directory
  listing reads it in that order.  File contents are strings.  The operations fail exactly
  when the contents of the file system make them fail.
\<close>

datatype node = Dir | File string

type_synonym fs = "(path \<times> node) list"

definition is_dir :: "fs \<Rightarrow> path \<Rightarrow> bool" where
  "is_dir fs p = (p = [] \<or> map_of fs p = Some Dir)"

definition is_file :: "fs \<Rightarrow> path \<Rightarrow> bool" where
  "is_file fs p = (case map_of fs p of Some (File c) \<Rightarrow> True | _ \<Rightarrow> False)"

text \<open>\<^verbatim>\<open>Path.exists()\<close>.\<close>

definition path_exists :: "fs \<Rightarrow> path \<Rightarrow> bool" where
  "path_exists fs p = (p = [] \<or> map_of fs p \<noteq> None)"

text \<open>\<^verbatim>\<open>os.mkdir\<close>: the parent must be a directory and the path must be free.\<close>

definition os_mkdir :: "fs \<Rightarrow> path \<Rightarrow> exc + fs" where
  "os_mkdir fs p =
     (if p = [] then Inl FileExistsError
      else if \<not> path_exists fs (butlast p) then Inl FileNotFoundError
      else if \<not> is_dir fs (butlast p) then Inl NotADirectoryError
      else if path_exists fs p then Inl FileExistsError
      else Inr (fs @ [(p, Dir)]))"

text \<open>
  \<^verbatim>\<open>Path.mkdir(parents, exist_ok)\<close> as \<^verbatim>\<open>pathlib\<close> implements it: try \<^verbatim>\<open>os.mkdir\<close>; on
  \<^verbatim>\<open>FileNotFoundError\<close> create the parents and try again, if \<^verbatim>\<open>parents\<close> is set; on any
  other \<^verbatim>\<open>OSError\<close> succeed only if \<^verbatim>\<open>exist_ok\<close> is set and the path is a directory.
\<close>

function path_mkdir :: "bool \<Rightarrow> bool \<Rightarrow> fs \<Rightarrow> path \<Rightarrow> exc + fs" where
  "path_mkdir parents exist_ok fs p =
     (case os_mkdir fs p of
        Inr fs' \<Rightarrow> Inr fs'
      | Inl e \<Rightarrow>
          if e = FileNotFoundError then
            (if \<not> parents \<or> p = [] then Inl e
             else case path_mkdir True True fs (butlast p) of
                    Inl e' \<Rightarrow> Inl e'
                  | Inr fs1 \<Rightarrow> path_mkdir False exist_ok fs1 p)
          else if \<not> exist_ok \<or> \<not> is_dir fs p then Inl e
          else Inr fs)"
  by pat_completeness auto
termination
  by (relation "measure (\<lambda>(parents, exist_ok, fs, p). 2 * length p + (if parents then 1 else 0))")
     (auto simp: neq_Nil_conv)

declare path_mkdir.simps [simp del]

text \<open>Reading a file, as \<^verbatim>\<open>open(p, 'rb').read()\<close> does.\<close>

definition read_file :: "fs \<Rightarrow> path \<Rightarrow> exc + string" where
  "read_file fs p =
     (case map_of fs p of
        None \<Rightarrow> Inl FileNotFoundError
      | Some Dir \<Rightarrow> Inl IsADirectoryError
      | Some (File c) \<Rightarrow> Inr c)"

text \<open>
  \<^verbatim>\<open>shutil.copy(src, dst)\<close>: a destination that is a directory stands for the file of the
  source's name inside it; the source is opened for reading and the destination for
  writing, under its final name, and the content is written there.
\<close>

definition shutil_copy :: "fs \<Rightarrow> path \<Rightarrow> path \<Rightarrow> exc + fs" where
  "shutil_copy fs src dst =
     (let dst' = (if is_dir fs dst then dst @ [last src] else dst)
      in if path_exists fs src \<and> src = dst' then Inl SameFileError
         else case map_of fs src of
                None \<Rightarrow> Inl FileNotFoundError
              | Some Dir \<Rightarrow> Inl IsADirectoryError
              | Some (File c) \<Rightarrow>
                  if is_dir fs dst' then Inl IsADirectoryError
                  else if \<not> path_exists fs (butlast dst') then Inl FileNotFoundError
                  else if \<not> is_dir fs (butlast dst') then Inl NotADirectoryError
                  else Inr (AList.update dst' (File c) fs))"

text \<open>\<^verbatim>\<open>d.glob("*.bin")\<close>: the entries of directory \<open>d\<close> whose name ends in \<^verbatim>\<open>.bin\<close>.\<close>

definition ends_with :: "string \<Rightarrow> string \<Rightarrow> bool" where
  "ends_with suffix s = (length suffix \<le> length s \<and> drop (length s - length suffix) s = suffix)"

definition glob_bin :: "fs \<Rightarrow> path \<Rightarrow> path list" where
  "glob_bin fs d =
     (if is_dir fs d then
        filter (\<lambda>p. p \<noteq> [] \<and> butlast p = d \<and> ends_with ''.bin'' (last p)) (map fst fs)
      else [])"

text \<open>The files directly inside a directory, with their contents.\<close>

fun files_in :: "fs \<Rightarrow> path \<Rightarrow> (string \<times> string) list" where
  "files_in [] d = []"
| "files_in ((p, File c) # fs) d =
     (if p \<noteq> [] \<and> butlast p = d then (last p, c) # files_in fs d else files_in fs d)"
| "files_in ((p, Dir) # fs) d = files_in fs d"

text \<open>
  What a collaborator leaves on disk: a file at the path it was given (\<open>None\<close>: it wrote
  nothing), or a directory at that path with files inside.  A collaborator may have
  written before it raises.
\<close>

definition write_file :: "path \<Rightarrow> string option \<Rightarrow> fs \<Rightarrow> fs" where
  "write_file p written fs = (case written of None \<Rightarrow> fs | Some c \<Rightarrow> AList.update p (File c) fs)"

definition write_dir :: "path \<Rightarrow> (string \<times> string) list option \<Rightarrow> fs \<Rightarrow> fs" where
  "write_dir d written fs =
     (case written of
        None \<Rightarrow> fs
      | Some files \<Rightarrow> fold (\<lambda>(n, c). AList.update (d @ [n]) (File c)) files (AList.update d Dir fs))"

text \<open>
  The part of a file system at or below a directory, and the rest of it, both in listing
  order.
\<close>

definition under :: "path \<Rightarrow> path \<Rightarrow> bool" where
  "under d p = (take (length d) p = d)"

definition subtree :: "path \<Rightarrow> fs \<Rightarrow> fs" where
  "subtree d fs = filter (\<lambda>e. under d (fst e)) fs"

definition outside :: "path \<Rightarrow> fs \<Rightarrow> fs" where
  "outside d fs = filter (\<lambda>e. \<not> under d (fst e)) fs"


section \<open>The conversion collaborators\<close>

text \<open>
  The libraries the conversion scripts call.  Each is a function of the arguments the
  script passes and of what it reads from disk; one that writes returns what it wrote at
  the path it was handed, and the exception it raised, if any.
  \<^item> \<open>umx\<close>: \<^verbatim>\<open>openunmix.umx(pretrained=True, target=stem)\<close>;
  \<^item> \<open>torch_onnx_export\<close>: \<^verbatim>\<open>torch.onnx.export\<close>, writing the ONNX file;
  \<^item> \<open>onnx_load\<close>: \<^verbatim>\<open>onnx.load\<close>, from the bytes of the ONNX file;
  \<^item> \<open>prepare\<close>: \<^verbatim>\<open>onnx_tf.backend.prepare\<close>;
  \<^item> \<open>export_graph\<close>: \<^verbatim>\<open>tf_rep.export_graph\<close>, writing the SavedModel directory;
  \<^item> \<open>onnx2tf_convert\<close>: \<^verbatim>\<open>onnx2tf.convert\<close>, from the bytes of the ONNX file, writing the
    SavedModel directory;
  \<^item> \<open>convert_tf_saved_model\<close>: \<^verbatim>\<open>tfjs.converters.convert_tf_saved_model\<close>, from the files
    of the SavedModel directory, writing the TensorFlow.js directory.
\<close>

record env =
  umx :: "string \<Rightarrow> exc + model_handle"
  torch_onnx_export :: "export_call \<Rightarrow> string option \<times> exc option"
  onnx_load :: "string \<Rightarrow> exc + string"
  prepare :: "string \<Rightarrow> exc + string"
  export_graph :: "string \<Rightarrow> (string \<times> string) list option \<times> exc option"
  onnx2tf_convert :: "string \<Rightarrow> (string \<times> string) list option \<times> exc option"
  convert_tf_saved_model ::
    "(string \<times> string) list \<Rightarrow> (string \<times> string) list option \<times> exc option"

text \<open>
  The collaborators raise nothing but \<^verbatim>\<open>Exception\<close>s: nobody interrupts the run from the
  keyboard and no library calls \<^verbatim>\<open>sys.exit\<close>.
\<close>

definition no_interrupt :: "env \<Rightarrow> bool" where
  "no_interrupt env \<longleftrightarrow>
     (\<forall>s e. umx env s = Inl e \<longrightarrow> is_Exception e)
   \<and> (\<forall>c w e. torch_onnx_export env c = (w, Some e) \<longrightarrow> is_Exception e)
   \<and> (\<forall>b e. onnx_load env b = Inl e \<longrightarrow> is_Exception e)
   \<and> (\<forall>g e. prepare env g = Inl e \<longrightarrow> is_Exception e)
   \<and> (\<forall>r w e. export_graph env r = (w, Some e) \<longrightarrow> is_Exception e)
   \<and> (\<forall>b w e. onnx2tf_convert env b = (w, Some e) \<longrightarrow> is_Exception e)
   \<and> (\<forall>f w e. convert_tf_saved_model env f = (w, Some e) \<longrightarrow> is_Exception e)"

text \<open>
  What a script reports for a stem: converted (the success line), no \<^verbatim>\<open>model.json\<close> among
  the converter's output (the error line of the \<^verbatim>\<open>else\<close> branch), or the exception the
  \<^verbatim>\<open>except Exception\<close> clause caught and printed.
\<close>

datatype status = Converted | ModelJsonMissing | Failed exc


section \<open>\<^verbatim>\<open>convert_open_unmix_2stems.py\<close>\<close>

text \<open>
  \<^verbatim>\<open>convert_pytorch_to_onnx(pytorch_model, output_path, stem_name)\<close> and
  \<^verbatim>\<open>convert_onnx_to_tfjs(onnx_path, output_dir)\<close> of this script; the suffix tells them from
  the functions of the same names in \<^verbatim>\<open>convert_open_unmix.py\<close>.
\<close>

definition convert_pytorch_to_onnx_2stems ::
  "env \<Rightarrow> model_handle \<Rightarrow> path \<Rightarrow> string \<Rightarrow> fs \<Rightarrow> (exc + path) \<times> fs" where
  "convert_pytorch_to_onnx_2stems env pytorch_model output_path stem_name fs =
     (let call = export_call_2stems pytorch_model output_path stem_name;
          onnx_path = ec_file call;
          (written, raised) = torch_onnx_export env call;
          fs' = write_file onnx_path written fs
      in case raised of
           Some e \<Rightarrow> (Inl e, fs')
         | None \<Rightarrow> (Inr onnx_path, fs'))"

definition convert_onnx_to_tfjs_2stems ::
  "env \<Rightarrow> path \<Rightarrow> path \<Rightarrow> fs \<Rightarrow> (exc + path) \<times> fs" where
  "convert_onnx_to_tfjs_2stems env onnx_path output_dir fs =
     (case read_file fs onnx_path of
        Inl e \<Rightarrow> (Inl e, fs)
      | Inr bytes \<Rightarrow>
     (case onnx_load env bytes of
        Inl e \<Rightarrow> (Inl e, fs)
      | Inr onnx_model \<Rightarrow>
     (case prepare env onnx_model of
        Inl e \<Rightarrow> (Inl e, fs)
      | Inr tf_rep \<Rightarrow>
     (let saved_model_path = output_dir @ [''saved_model''];
          (written, raised) = export_graph env tf_rep;
          fs1 = write_dir saved_model_path written fs
      in case raised of
           Some e \<Rightarrow> (Inl e, fs1)
         | None \<Rightarrow>
     (let tfjs_path = output_dir @ [''tfjs_model''];
          (written', raised') = convert_tf_saved_model env (files_in fs1 saved_model_path);
          fs2 = write_dir tfjs_path written' fs1
      in case raised' of
           Some e \<Rightarrow> (Inl e, fs2)
         | None \<Rightarrow> (Inr tfjs_path, fs2))))))"

text \<open>
  The loop \<^verbatim>\<open>for weight_file in tfjs_path.glob("*.bin"): shutil.copy(weight_file,
  stem_dir / weight_file.name)\<close>, over the listing it iterates.
\<close>

fun copy_weight_files :: "fs \<Rightarrow> path list \<Rightarrow> path \<Rightarrow> (exc + unit) \<times> fs" where
  "copy_weight_files fs [] stem_dir = (Inr (), fs)"
| "copy_weight_files fs (weight_file # rest) stem_dir =
     (case shutil_copy fs weight_file (stem_dir @ [last weight_file]) of
        Inl e \<Rightarrow> (Inl e, fs)
      | Inr fs' \<Rightarrow> copy_weight_files fs' rest stem_dir)"

text \<open>
  The staging block of \<^verbatim>\<open>convert_openunmix_2stems\<close> ("Move model.json and weights to
  final location"): if \<^verbatim>\<open>model.json\<close> exists among the converter's output, copy it and
  then every weight file into the stem directory.
\<close>

definition stage_model_files :: "fs \<Rightarrow> path \<Rightarrow> path \<Rightarrow> (exc + status) \<times> fs" where
  "stage_model_files fs tfjs_path stem_dir =
     (let model_json = tfjs_path @ [''model.json'']
      in if path_exists fs model_json then
           (case shutil_copy fs model_json (stem_dir @ [''model.json'']) of
              Inl e \<Rightarrow> (Inl e, fs)
            | Inr fs1 \<Rightarrow>
                (case copy_weight_files fs1 (glob_bin fs1 tfjs_path) stem_dir of
                   (Inl e, fs2) \<Rightarrow> (Inl e, fs2)
                 | (Inr u, fs2) \<Rightarrow> (Inr Converted, fs2)))
         else (Inr ModelJsonMissing, fs))"

text \<open>The body of the \<^verbatim>\<open>try\<close> block of the loop, for one stem.\<close>

definition convert_stem :: "env \<Rightarrow> path \<Rightarrow> string \<Rightarrow> fs \<Rightarrow> (exc + status) \<times> fs" where
  "convert_stem env stem_dir stem fs =
     (case umx env stem of
        Inl e \<Rightarrow> (Inl e, fs)
      | Inr model \<Rightarrow>
     (case convert_pytorch_to_onnx_2stems env model stem_dir stem fs of
        (Inl e, fs1) \<Rightarrow> (Inl e, fs1)
      | (Inr onnx_path, fs1) \<Rightarrow>
     (case convert_onnx_to_tfjs_2stems env onnx_path stem_dir fs1 of
        (Inl e, fs2) \<Rightarrow> (Inl e, fs2)
      | (Inr tfjs_path, fs2) \<Rightarrow> stage_model_files fs2 tfjs_path stem_dir)))"

text \<open>
  One turn of the loop: \<^verbatim>\<open>stem_dir.mkdir(exist_ok=True)\<close>, outside the \<^verbatim>\<open>try\<close>, then the
  \<^verbatim>\<open>try\<close> block, whose \<^verbatim>\<open>except Exception\<close> clause prints the error and continues.
\<close>

definition process_stem :: "env \<Rightarrow> path \<Rightarrow> string \<Rightarrow> fs \<Rightarrow> (exc + status) \<times> fs" where
  "process_stem env output_base stem fs =
     (let stem_dir = output_base @ [stem]
      in case path_mkdir False True fs stem_dir of
           Inl e \<Rightarrow> (Inl e, fs)
         | Inr fs1 \<Rightarrow>
             (case convert_stem env stem_dir stem fs1 of
                (Inr st, fs2) \<Rightarrow> (Inr st, fs2)
              | (Inl e, fs2) \<Rightarrow>
                  if is_Exception e then (Inr (Failed e), fs2) else (Inl e, fs2)))"

fun stems_loop ::
  "env \<Rightarrow> path \<Rightarrow> string list \<Rightarrow> (string \<times> status) list \<Rightarrow> fs
    \<Rightarrow> (exc + (string \<times> status) list) \<times> fs" where
  "stems_loop env output_base [] log fs = (Inr log, fs)"
| "stems_loop env output_base (stem # rest) log fs =
     (case process_stem env output_base stem fs of
        (Inl e, fs') \<Rightarrow> (Inl e, fs')
      | (Inr st, fs') \<Rightarrow> stems_loop env output_base rest (log @ [(stem, st)]) fs')"

definition output_base_2stems :: path where
  "output_base_2stems = [''converted_models'', ''umx-2stems'']"

text \<open>
  \<^verbatim>\<open>convert_openunmix_2stems()\<close> with the list of stems as a parameter, and with the list
  the script has.  The result is what was reported for each stem, in order, or the
  exception that left the function.
\<close>

definition convert_stems ::
  "env \<Rightarrow> string list \<Rightarrow> fs \<Rightarrow> (exc + (string \<times> status) list) \<times> fs" where
  "convert_stems env stems fs =
     (case path_mkdir True True fs output_base_2stems of
        Inl e \<Rightarrow> (Inl e, fs)
      | Inr fs0 \<Rightarrow> stems_loop env output_base_2stems stems [] fs0)"

definition convert_openunmix_2stems ::
  "env \<Rightarrow> fs \<Rightarrow> (exc + (string \<times> status) list) \<times> fs" where
  "convert_openunmix_2stems env fs = convert_stems env [''vocals'', ''accompaniment''] fs"

text \<open>
  The \<^verbatim>\<open>__main__\<close> guard: \<^verbatim>\<open>KeyboardInterrupt\<close> and \<^verbatim>\<open>Exception\<close> both end in
  \<^verbatim>\<open>sys.exit(1)\<close>; the result is the exit status of the process.
\<close>

definition main_2stems :: "env \<Rightarrow> fs \<Rightarrow> nat \<times> fs" where
  "main_2stems env fs =
     (case convert_openunmix_2stems env fs of
        (Inr log, fs') \<Rightarrow> (0, fs')
      | (Inl e, fs') \<Rightarrow>
          if e = KeyboardInterrupt \<or> is_Exception e then (1, fs')
          else (exit_status (Inl e :: exc + unit), fs'))"


section \<open>\<^verbatim>\<open>convert_umx_to_tfjs.py\<close> and \<^verbatim>\<open>convert_to_onnx_only.py\<close>\<close>

text \<open>
  Both scripts run at module level.  They load a separator with \<^verbatim>\<open>torch.hub.load\<close> and
  convert \<^verbatim>\<open>stems_to_convert = {'vocals': separator.target_models['vocals']}\<close>; the models
  below start from that dictionary, an association list in insertion order.

  The first loop is the same in both scripts but for the export call: create the stem
  directory (outside the \<^verbatim>\<open>try\<close>), export, and record the ONNX path in \<^verbatim>\<open>onnx_models\<close>
  on success; \<^verbatim>\<open>except Exception\<close> prints and continues.
\<close>

fun export_loop ::
  "env \<Rightarrow> (model_handle \<Rightarrow> path \<Rightarrow> string \<Rightarrow> export_call) \<Rightarrow> path
    \<Rightarrow> (string \<times> model_handle) list \<Rightarrow> (string \<times> path) list \<Rightarrow> fs
    \<Rightarrow> (exc + (string \<times> path) list) \<times> fs" where
  "export_loop env mk_call output_base [] onnx_models fs = (Inr onnx_models, fs)"
| "export_loop env mk_call output_base ((stem_name, model) # rest) onnx_models fs =
     (let stem_dir = output_base @ [stem_name]
      in case path_mkdir False True fs stem_dir of
           Inl e \<Rightarrow> (Inl e, fs)
         | Inr fs1 \<Rightarrow>
             (let call = mk_call model stem_dir stem_name;
                  onnx_path = ec_file call;
                  (written, raised) = torch_onnx_export env call;
                  fs2 = write_file onnx_path written fs1
              in case raised of
                   None \<Rightarrow>
                     export_loop env mk_call output_base rest
                       (AList.update stem_name onnx_path onnx_models) fs2
                 | Some e \<Rightarrow>
                     if is_Exception e
                     then export_loop env mk_call output_base rest onnx_models fs2
                     else (Inl e, fs2)))"

text \<open>
  The \<^verbatim>\<open>try\<close> block of the second loop of \<^verbatim>\<open>convert_umx_to_tfjs.py\<close>: ONNX to SavedModel
  with \<^verbatim>\<open>onnx2tf\<close>, SavedModel to TensorFlow.js, then the staging block.  Here a missing
  \<^verbatim>\<open>model.json\<close> is passed over in silence: the "conversion complete" line is printed
  either way.
\<close>

definition stage_model_files_umx :: "fs \<Rightarrow> path \<Rightarrow> path \<Rightarrow> (exc + unit) \<times> fs" where
  "stage_model_files_umx fs tfjs_path stem_dir =
     (let model_json = tfjs_path @ [''model.json'']
      in if path_exists fs model_json then
           (case shutil_copy fs model_json (stem_dir @ [''model.json'']) of
              Inl e \<Rightarrow> (Inl e, fs)
            | Inr fs1 \<Rightarrow> copy_weight_files fs1 (glob_bin fs1 tfjs_path) stem_dir)
         else (Inr (), fs))"

definition convert_onnx_umx :: "env \<Rightarrow> path \<Rightarrow> path \<Rightarrow> fs \<Rightarrow> (exc + unit) \<times> fs" where
  "convert_onnx_umx env onnx_path stem_dir fs =
     (case read_file fs onnx_path of
        Inl e \<Rightarrow> (Inl e, fs)
      | Inr bytes \<Rightarrow>
     (let saved_model_path = stem_dir @ [''saved_model''];
          (written, raised) = onnx2tf_convert env bytes;
          fs1 = write_dir saved_model_path written fs
      in case raised of
           Some e \<Rightarrow> (Inl e, fs1)
         | None \<Rightarrow>
     (let tfjs_path = stem_dir @ [''tfjs_model''];
          (written', raised') = convert_tf_saved_model env (files_in fs1 saved_model_path);
          fs2 = write_dir tfjs_path written' fs1
      in case raised' of
           Some e \<Rightarrow> (Inl e, fs2)
         | None \<Rightarrow> stage_model_files_umx fs2 tfjs_path stem_dir)))"

fun tfjs_loop ::
  "env \<Rightarrow> path \<Rightarrow> (string \<times> path) list \<Rightarrow> (string \<times> status) list \<Rightarrow> fs
    \<Rightarrow> (exc + (string \<times> status) list) \<times> fs" where
  "tfjs_loop env output_base [] log fs = (Inr log, fs)"
| "tfjs_loop env output_base ((stem_name, onnx_path) # rest) log fs =
     (case convert_onnx_umx env onnx_path (output_base @ [stem_name]) fs of
        (Inr u, fs') \<Rightarrow> tfjs_loop env output_base rest (log @ [(stem_name, Converted)]) fs'
      | (Inl e, fs') \<Rightarrow>
          if is_Exception e
          then tfjs_loop env output_base rest (log @ [(stem_name, Failed e)]) fs'
          else (Inl e, fs'))"

text \<open>
  \<^verbatim>\<open>convert_umx_to_tfjs.py\<close> from \<^verbatim>\<open>output_base.mkdir\<close> on, over any dictionary of stems
  and as the script has it: \<^verbatim>\<open>sys.exit(1)\<close> when no model was exported, else the second
  loop and the end of the script.
\<close>

definition umx_to_tfjs_over ::
  "env \<Rightarrow> (string \<times> model_handle) list \<Rightarrow> fs \<Rightarrow> (exc + (string \<times> status) list) \<times> fs" where
  "umx_to_tfjs_over env stems_to_convert fs =
     (case path_mkdir True True fs output_base_2stems of
        Inl e \<Rightarrow> (Inl e, fs)
      | Inr fs0 \<Rightarrow>
     (case export_loop env export_call_umx_to_tfjs output_base_2stems stems_to_convert [] fs0 of
        (Inl e, fs1) \<Rightarrow> (Inl e, fs1)
      | (Inr onnx_models, fs1) \<Rightarrow>
          if onnx_models = [] then (Inl (SystemExit 1), fs1)
          else tfjs_loop env output_base_2stems onnx_models [] fs1))"

definition convert_umx_to_tfjs ::
  "env \<Rightarrow> model_handle \<Rightarrow> fs \<Rightarrow> (exc + (string \<times> status) list) \<times> fs" where
  "convert_umx_to_tfjs env vocals_model fs = umx_to_tfjs_over env [(''vocals'', vocals_model)] fs"

text \<open>
  \<^verbatim>\<open>convert_to_onnx_only.py\<close> from \<^verbatim>\<open>output_base.mkdir\<close> on: the first loop only; the script
  then prints one of two messages and ends.
\<close>

definition output_base_onnx_only :: path where
  "output_base_onnx_only = [''converted_models'', ''umx-onnx'']"

definition convert_to_onnx_only ::
  "env \<Rightarrow> model_handle \<Rightarrow> fs \<Rightarrow> (exc + (string \<times> path) list) \<times> fs" where
  "convert_to_onnx_only env vocals_model fs =
     (case path_mkdir True True fs output_base_onnx_only of
        Inl e \<Rightarrow> (Inl e, fs)
      | Inr fs0 \<Rightarrow>
          export_loop env export_call_onnx_only output_base_onnx_only
            [(''vocals'', vocals_model)] [] fs0)"


section \<open>\<^verbatim>\<open>download_models.py\<close> and \<^verbatim>\<open>download_and_convert.py\<close>\<close>

text \<open>
  The network is a parameter: for a URL, what \<^verbatim>\<open>urllib.request.urlretrieve\<close> wrote to the
  file it was given (\<open>None\<close>: nothing), and the exception it raised, if any.  The world of
  these scripts is the file system together with the URLs requested so far.
\<close>

type_synonym network = "string \<Rightarrow> string option \<times> exc option"

type_synonym world = "fs \<times> string list"

definition MODEL_URLS_download_models :: "(string \<times> string) list" where
  "MODEL_URLS_download_models =
     [(''vocals'', ''https://zenodo.org/record/3370489/files/umx_vocals.pth?download=1''),
      (''accompaniment'',
       ''https://zenodo.org/record/3370489/files/umx_accompaniment.pth?download=1'')]"

definition MODEL_URLS_download_and_convert :: "(string \<times> string) list" where
  "MODEL_URLS_download_and_convert =
     [(''vocals'', ''https://zenodo.org/record/3370489/files/umx_vocals.pth''),
      (''accompaniment'', ''https://zenodo.org/record/3370489/files/umx_accompaniment.pth'')]"

definition output_dir_downloads :: path where
  "output_dir_downloads = [''downloaded_models'']"

text \<open>
  \<^verbatim>\<open>download_file(url, output_path)\<close> of \<^verbatim>\<open>download_models.py\<close> and
  \<^verbatim>\<open>download_model(url, filename)\<close> of \<^verbatim>\<open>download_and_convert.py\<close>: retrieve, return
  \<^verbatim>\<open>True\<close>; \<^verbatim>\<open>except Exception\<close>: return \<^verbatim>\<open>False\<close>.  They differ in the progress callback
  only.
\<close>

definition download_file :: "network \<Rightarrow> string \<Rightarrow> path \<Rightarrow> world \<Rightarrow> (exc + bool) \<times> world" where
  "download_file net url output_path w =
     (let (written, raised) = net url;
          w' = (write_file output_path written (fst w), snd w @ [url])
      in case raised of
           None \<Rightarrow> (Inr True, w')
         | Some e \<Rightarrow> if is_Exception e then (Inr False, w') else (Inl e, w'))"

definition download_model :: "network \<Rightarrow> string \<Rightarrow> path \<Rightarrow> world \<Rightarrow> (exc + bool) \<times> world" where
  "download_model net url filename w =
     (let (written, raised) = net url;
          w' = (write_file filename written (fst w), snd w @ [url])
      in case raised of
           None \<Rightarrow> (Inr True, w')
         | Some e \<Rightarrow> if is_Exception e then (Inr False, w') else (Inl e, w'))"

text \<open>
  The loop of \<^verbatim>\<open>main\<close> in \<^verbatim>\<open>download_models.py\<close>: a file that exists is skipped ("Skip if
  already downloaded") and counted as downloaded.
\<close>

fun download_models_loop ::
  "network \<Rightarrow> (string \<times> string) list \<Rightarrow> path list \<Rightarrow> world \<Rightarrow> (exc + path list) \<times> world" where
  "download_models_loop net [] downloaded w = (Inr downloaded, w)"
| "download_models_loop net ((stem, url) # rest) downloaded w =
     (let filename = output_dir_downloads @ [''umx_'' @ stem @ ''.pth'']
      in if path_exists (fst w) filename
         then download_models_loop net rest (downloaded @ [filename]) w
         else case download_file net url filename w of
                (Inl e, w') \<Rightarrow> (Inl e, w')
              | (Inr ok, w') \<Rightarrow>
                  download_models_loop net rest
                    (if ok then downloaded @ [filename] else downloaded) w')"

definition main_download_models :: "network \<Rightarrow> world \<Rightarrow> (exc + path list) \<times> world" where
  "main_download_models net w =
     (case path_mkdir False True (fst w) output_dir_downloads of
        Inl e \<Rightarrow> (Inl e, w)
      | Inr fs0 \<Rightarrow> download_models_loop net MODEL_URLS_download_models [] (fs0, snd w))"

text \<open>
  The first loop of \<^verbatim>\<open>main\<close> in \<^verbatim>\<open>download_and_convert.py\<close>: every URL is retrieved;
  \<^verbatim>\<open>downloaded\<close> is a dictionary from stem to file.
\<close>

fun download_and_convert_loop ::
  "network \<Rightarrow> (string \<times> string) list \<Rightarrow> (string \<times> path) list \<Rightarrow> world
    \<Rightarrow> (exc + (string \<times> path) list) \<times> world" where
  "download_and_convert_loop net [] downloaded w = (Inr downloaded, w)"
| "download_and_convert_loop net ((stem, url) # rest) downloaded w =
     (let filename = output_dir_downloads @ [''umx_'' @ stem @ ''.pth'']
      in case download_model net url filename w of
           (Inl e, w') \<Rightarrow> (Inl e, w')
         | (Inr ok, w') \<Rightarrow>
             download_and_convert_loop net rest
               (if ok then AList.update stem filename downloaded else downloaded) w')"

text \<open>
  A checkpoint is what \<^verbatim>\<open>torch.load\<close> returns for a \<^verbatim>\<open>.pth\<close> file of weights: a state
  dictionary from parameter names to tensors, with no architecture.  \<^verbatim>\<open>torch.load\<close> is a
  parameter, a function of the bytes of the file.

  \<^verbatim>\<open>load_pytorch_model(model_path)\<close> returns the checkpoint as it is ("For now, return the
  checkpoint"); \<^verbatim>\<open>except Exception\<close>: print and return \<^verbatim>\<open>None\<close>.
\<close>

type_synonym checkpoint = "(string \<times> string) list"

definition load_pytorch_model ::
  "(string \<Rightarrow> exc + checkpoint) \<Rightarrow> path \<Rightarrow> fs \<Rightarrow> exc + checkpoint option" where
  "load_pytorch_model torch_load model_path fs =
     (case (case read_file fs model_path of
              Inl e \<Rightarrow> Inl e
            | Inr bytes \<Rightarrow> torch_load bytes) of
        Inr checkpoint \<Rightarrow> Inr (Some checkpoint)
      | Inl e \<Rightarrow> if is_Exception e then Inr None else Inl e)"

text \<open>
  The second loop of \<^verbatim>\<open>main\<close>: \<^verbatim>\<open>if model: models[stem] = model\<close>; \<^verbatim>\<open>None\<close> and the empty
  dictionary are false.
\<close>

fun load_loop ::
  "(string \<Rightarrow> exc + checkpoint) \<Rightarrow> (string \<times> path) list \<Rightarrow> (string \<times> checkpoint) list \<Rightarrow> fs
    \<Rightarrow> exc + (string \<times> checkpoint) list" where
  "load_loop torch_load [] models fs = Inr models"
| "load_loop torch_load ((stem, path) # rest) models fs =
     (case load_pytorch_model torch_load path fs of
        Inl e \<Rightarrow> Inl e
      | Inr model \<Rightarrow>
          load_loop torch_load rest
            (case model of
               None \<Rightarrow> models
             | Some checkpoint \<Rightarrow>
                 if checkpoint \<noteq> [] then AList.update stem checkpoint models else models)
            fs)"

text \<open>
  \<^verbatim>\<open>main\<close> of \<^verbatim>\<open>download_and_convert.py\<close>; the result is the dictionary \<^verbatim>\<open>models\<close> it has
  built when it returns (empty when nothing was downloaded).
\<close>

definition main_download_and_convert ::
  "network \<Rightarrow> (string \<Rightarrow> exc + checkpoint) \<Rightarrow> world
    \<Rightarrow> (exc + (string \<times> checkpoint) list) \<times> world" where
  "main_download_and_convert net torch_load w =
     (case path_mkdir False True (fst w) output_dir_downloads of
        Inl e \<Rightarrow> (Inl e, w)
      | Inr fs0 \<Rightarrow>
     (case download_and_convert_loop net MODEL_URLS_download_and_convert [] (fs0, snd w) of
        (Inl e, w') \<Rightarrow> (Inl e, w')
      | (Inr downloaded, w') \<Rightarrow>
          if downloaded = [] then (Inr [], w')
          else (load_loop torch_load downloaded [] (fst w'), w')))"


text \<open>The dictionary a run of \<^verbatim>\<open>main\<close> returned, empty if an exception left it.\<close>

definition the_models :: "exc + (string \<times> checkpoint) list \<Rightarrow> (string \<times> checkpoint) list" where
  "the_models r = (case r of Inl e \<Rightarrow> [] | Inr models \<Rightarrow> models)"


section \<open>Example runs\<close>

text \<open>
  Collaborators for two stems, \<^verbatim>\<open>drums\<close> and \<^verbatim>\<open>vocals\<close>: every stage succeeds, except that
  the conversion to TensorFlow.js fails for the SavedModel that came from the drums model.
  The ONNX bytes, and the SavedModel after them, carry the name of the exported file.
\<close>

definition env_drums_fail :: env where
  "env_drums_fail =
     \<lparr> umx = (\<lambda>stem. Inr undeclared_model),
       torch_onnx_export = (\<lambda>call. (Some (last (ec_file call)), None)),
       onnx_load = (\<lambda>bytes. Inr bytes),
       prepare = (\<lambda>graph. Inr graph),
       export_graph = (\<lambda>rep. (Some [(''saved_model.pb'', rep)], None)),
       onnx2tf_convert = (\<lambda>bytes. (Some [(''saved_model.pb'', bytes)], None)),
       convert_tf_saved_model =
         (\<lambda>files. if files = [(''saved_model.pb'', ''drums.onnx'')]
                   then (None, Some (OtherException ''unsupported operator''))
                   else (Some [(''model.json'', ''{}''), (''group1-shard1of1.bin'', ''w'')],
                         None)) \<rparr>"


text \<open>
  The same collaborators, except that the download of the vocals model fails and no
  conversion does.
\<close>

definition env_vocals_fail :: env where
  "env_vocals_fail =
     \<lparr> umx = (\<lambda>stem. if stem = ''vocals'' then Inl (OtherException ''download failed'')
                     else Inr undeclared_model),
       torch_onnx_export = (\<lambda>call. (Some (last (ec_file call)), None)),
       onnx_load = (\<lambda>bytes. Inr bytes),
       prepare = (\<lambda>graph. Inr graph),
       export_graph = (\<lambda>rep. (Some [(''saved_model.pb'', rep)], None)),
       onnx2tf_convert = (\<lambda>bytes. (Some [(''saved_model.pb'', bytes)], None)),
       convert_tf_saved_model =
         (\<lambda>files. (Some [(''model.json'', ''{}''), (''group1-shard1of1.bin'', ''w'')], None)) \<rparr>"

text \<open>
  Collaborators for \<^verbatim>\<open>convert_umx_to_tfjs.py\<close>: the export to ONNX succeeds and the
  conversion of the ONNX file fails.
\<close>

definition env_onnx2tf_fail :: env where
  "env_onnx2tf_fail =
     env_vocals_fail \<lparr> onnx2tf_convert := (\<lambda>bytes. (None, Some (OtherException ''onnx2tf''))) \<rparr>"


text \<open>
  A file system in which the vocals stem has an output of an earlier run (a manifest and
  its two weight shards) and the converter has just written a new model (a manifest and
  one shard) into \<^verbatim>\<open>tfjs_model\<close>.
\<close>

definition vocals_dir :: path where
  "vocals_dir = [''converted_models'', ''umx-2stems'', ''vocals'']"

definition fs_prior_output :: fs where
  "fs_prior_output =
     [([''converted_models''], Dir),
      ([''converted_models'', ''umx-2stems''], Dir),
      (vocals_dir, Dir),
      (vocals_dir @ [''model.json''], File ''old manifest, 2 shards''),
      (vocals_dir @ [''group1-shard1of2.bin''], File ''old weights 1''),
      (vocals_dir @ [''group1-shard2of2.bin''], File ''old weights 2''),
      (vocals_dir @ [''tfjs_model''], Dir),
      (vocals_dir @ [''tfjs_model'', ''model.json''], File ''new manifest, 1 shard''),
      (vocals_dir @ [''tfjs_model'', ''group1-shard1of1.bin''], File ''new weights'')]"


text \<open>
  A weight cache that holds the vocals checkpoint of an earlier download, a host that by
  now serves other bytes, and a \<^verbatim>\<open>torch.load\<close> that reads any file as a state dictionary
  with one tensor holding the bytes.
\<close>

definition fs_cached_vocals :: fs where
  "fs_cached_vocals =
     [([''downloaded_models''], Dir),
      ([''downloaded_models'', ''umx_vocals.pth''], File ''weights of the first download'')]"

definition net_changed :: network where
  "net_changed url = (Some ''bytes served today'', None)"

definition torch_load_state_dict :: "string \<Rightarrow> exc + checkpoint" where
  "torch_load_state_dict bytes = Inr [(''fc1.weight'', bytes)]"


section \<open>Properties\<close>

subsection \<open>The dependency check\<close>

lemma check_loop_import_failing:
  "check_loop (import_failing ms) deps missing ev =
     (Inr (missing @ filter (\<lambda>d. replace_char CHR ''-'' CHR ''_'' d \<in> set ms) deps),
      ev @ map (\<lambda>d. Import (replace_char CHR ''-'' CHR ''_'' d)) deps)"
  by (induction deps arbitrary: missing ev) (simp_all add: import_failing_def Let_def)

lemma imports_tried_append:
  "imports_tried (xs @ ys) = imports_tried xs @ imports_tried ys"
  by (induction xs rule: imports_tried.induct) simp_all

lemma commands_run_append:
  "commands_run (xs @ ys) = commands_run xs @ commands_run ys"
  by (induction xs rule: commands_run.induct) simp_all

lemma printed_append:
  "printed (xs @ ys) = printed xs @ printed ys"
  by (induction xs rule: printed.induct) simp_all

lemma imports_tried_map_Import [simp]: "imports_tried (map (\<lambda>d. Import (f d)) ds) = map f ds"
  by (induction ds) simp_all

lemma commands_run_map_Import [simp]: "commands_run (map (\<lambda>d. Import (f d)) ds) = []"
  by (induction ds) simp_all

lemma printed_map_Import [simp]: "printed (map (\<lambda>d. Import (f d)) ds) = []"
  by (induction ds) simp_all

text \<open>
  Claim C9.  Whatever modules fail to import, \<^verbatim>\<open>check_dependencies\<close> returns normally,
  has tried to import all four modules, in the order of \<^verbatim>\<open>required\<close>; the packages it
  reports are exactly the required ones whose module failed; it returns \<^verbatim>\<open>False\<close> exactly
  when that list is not empty, and then prints the whole list, both as the missing
  dependencies and as the \<^verbatim>\<open>pip install\<close> line it suggests; it runs no command, so it
  installs nothing.
\<close>

theorem check_dependencies_complete:
  fixes ms :: "string list"
  defines "missing \<equiv> filter (\<lambda>d. replace_char CHR ''-'' CHR ''_'' d \<in> set ms) required"
  shows "fst (check_dependencies (import_failing ms)) = Inr (missing = [])
       \<and> imports_tried (snd (check_dependencies (import_failing ms)))
           = [''tensorflowjs'', ''torch'', ''onnx'', ''onnx_tf'']
       \<and> printed (snd (check_dependencies (import_failing ms)))
           = (if missing = [] then []
              else [''Missing dependencies: '' @ join '', '' missing,
                    CHR 0x0A # ''Install with:'',
                    ''pip install '' @ join '' '' missing])
       \<and> commands_run (snd (check_dependencies (import_failing ms))) = []"
proof -
  have loop: "check_loop (import_failing ms) required [] [] =
      (Inr missing, map (\<lambda>d. Import (replace_char CHR ''-'' CHR ''_'' d)) required)"
    by (simp add: check_loop_import_failing missing_def)
  have mods: "map (replace_char CHR ''-'' CHR ''_'') required
      = [''tensorflowjs'', ''torch'', ''onnx'', ''onnx_tf'']"
    by (simp add: required_def replace_char_def)
  show ?thesis
    by (simp add: check_dependencies_def loop imports_tried_append printed_append
        commands_run_append mods)
qed

subsection \<open>The progress callback\<close>

text \<open>
  Claim C10.  For every block count, block size and total size, also a total size that is
  zero, negative or unknown (\<open>-1\<close>), the callback raises nothing, the percentage it prints
  is at most 100, and every division it carries out has a strictly positive divisor; the
  percentage is at least 0 when neither the block count nor the block size is negative
  (they count blocks and bytes).
\<close>

theorem show_progress_bounded:
  "\<exists>p. fst (show_progress block_num block_size total_size) = Inr p
       \<and> p \<le> 100
       \<and> (0 \<le> block_num \<longrightarrow> 0 \<le> block_size \<longrightarrow> 0 \<le> p)
       \<and> list_all (\<lambda>d. 0 < d) (snd (show_progress block_num block_size total_size))"
proof (cases "total_size > 0")
  case True
  have "0 \<le> block_num * block_size * 100 div total_size"
    if "0 \<le> block_num" and "0 \<le> block_size"
  proof -
    from that have "0 \<le> block_num * block_size * 100" by simp
    with True show ?thesis by (simp add: pos_imp_zdiv_nonneg_iff)
  qed
  with True show ?thesis
    by (simp add: show_progress_def py_floordiv_def Let_def)
next
  case False
  then show ?thesis
    by (simp add: show_progress_def Let_def)
qed

theorem show_progress_bounded_witness:
  "(0::int) \<le> 3 \<and> (0::int) \<le> 8192
   \<and> fst (show_progress 3 8192 100000) = Inr 24
   \<and> snd (show_progress 3 8192 100000) = [100000]
   \<and> fst (show_progress 20 8192 100000) = Inr 100
   \<and> fst (show_progress 5 8192 (- 1)) = Inr 0
   \<and> snd (show_progress 5 8192 0) = []"
proof -
  from show_progress_bounded [of 3 8192 100000]
  obtain p where "fst (show_progress 3 8192 100000) = Inr p" and "0 \<le> p" and "p \<le> 100"
    by auto
  then show ?thesis
    by (simp add: show_progress_def py_floordiv_def Let_def)
qed

subsection \<open>Quantization\<close>

text \<open>
  Claim C3, as stated, fails: \<^verbatim>\<open>convert_onnx_to_tfjs\<close> has no parameter by which a caller
  could ask for a quantization mode, and the one command it runs asks for float16 weights.
\<close>

theorem convert_onnx_to_tfjs_full_precision_counterexample:
  "commands_run (snd (convert_onnx_to_tfjs process_succeeds ''vocals.onnx'' ''public/models/umx-5stems''))
     = [[''tensorflowjs_converter'', ''--input_format=onnx'', ''--output_format=tfjs_graph_model'',
         ''--quantize_float16'', ''vocals.onnx'', ''public/models/umx-5stems'']]
   \<and> requests_quantization
       [''tensorflowjs_converter'', ''--input_format=onnx'', ''--output_format=tfjs_graph_model'',
        ''--quantize_float16'', ''vocals.onnx'', ''public/models/umx-5stems'']"
  by (simp add: convert_onnx_to_tfjs_def process_succeeds_def requests_quantization_def
      quantization_options_def)

text \<open>
  Claim C3, amended.  Every call of \<^verbatim>\<open>convert_onnx_to_tfjs\<close>, whatever the two paths and
  whatever the converter process does, runs exactly one command, and that command asks
  for float16 quantization.
\<close>

theorem convert_onnx_to_tfjs_always_quantizes:
  "commands_run (snd (convert_onnx_to_tfjs run onnx_path output_path))
     = [[''tensorflowjs_converter'', ''--input_format=onnx'', ''--output_format=tfjs_graph_model'',
         ''--quantize_float16'', onnx_path, output_path]]
   \<and> list_all requests_quantization
       (commands_run (snd (convert_onnx_to_tfjs run onnx_path output_path)))"
  by (simp add: convert_onnx_to_tfjs_def requests_quantization_def quantization_options_def
      Let_def split: sum.splits)

subsection \<open>Input shapes and dynamic axes\<close>



text \<open>
  Claim C8 at the export of \<^verbatim>\<open>convert_to_onnx_only.py\<close>: the input is laid out as
  \<^verbatim>\<open>[batch, channels, freq, time]\<close>, so time is axis 3, and the axes declared dynamic for
  the input are 0 and 1: the time axis is not flagged, the channel axis is.  The export of
  \<^verbatim>\<open>convert_open_unmix_2stems.py\<close> does flag its time axis, axis 2, on input and output.
\<close>

theorem onnx_only_time_axis_not_flagged:
  "time_axes input_layout_onnx_only = [3]
   \<and> \<not> flagged_dynamic (export_call_onnx_only m d s) ''magnitude_spectrogram'' 3
   \<and> flagged_dynamic (export_call_onnx_only m d s) ''magnitude_spectrogram'' 1
   \<and> time_axes input_layout_2stems = [2]
   \<and> flagged_dynamic (export_call_2stems m d s) ''audio'' 2
   \<and> flagged_dynamic (export_call_2stems m d s) ''output'' 2"
proof -
  have "time_axes input_layout_onnx_only = [3]"
    by (simp add: time_axes_def input_layout_onnx_only_def upt_rec [of 0] upt_rec [of 1]
        upt_rec [of 2] upt_rec [of 3] upt_rec [of 4])
  moreover have "time_axes input_layout_2stems = [2]"
    by (simp add: time_axes_def input_layout_2stems_def upt_rec [of 0] upt_rec [of 1]
        upt_rec [of 2] upt_rec [of 3])
  ultimately show ?thesis
    by (simp add: flagged_dynamic_def export_call_onnx_only_def export_call_2stems_def)
qed

subsection \<open>The file system: what an operation below a directory reads and writes\<close>

lemma under_self [simp]: "under d d"
  by (simp add: under_def)

lemma under_append [simp]: "under d p \<Longrightarrow> under d (p @ q)"
  by (metis append_eq_conv_conj append.assoc under_def)

lemma under_append_self [simp]: "under d (d @ q)"
  by (simp add: under_def)

lemma under_Nil [simp]: "under d [] \<longleftrightarrow> d = []"
  by (auto simp: under_def)

lemma under_butlast: "p \<noteq> [] \<Longrightarrow> under d (butlast p) \<Longrightarrow> under d p"
  by (metis append_butlast_last_id under_append)

lemma under_sibling: "under (b @ [s]) p \<Longrightarrow> under (b @ [t]) p \<Longrightarrow> s = t"
  by (metis append1_eq_conv length_append_singleton under_def)

lemma not_under_base [simp]: "\<not> under (b @ [s]) b"
  by (auto simp: under_def dest: arg_cong [where f = length])

lemma filter_update_key:
  "filter (\<lambda>e. Q (fst e)) (AList.update k v al) =
     (if Q k then AList.update k v (filter (\<lambda>e. Q (fst e)) al) else filter (\<lambda>e. Q (fst e)) al)"
  by (induction al) auto

lemma subtree_update [simp]:
  "under d p \<Longrightarrow> AList.update p n (subtree d fs) = subtree d (AList.update p n fs)"
  by (simp add: subtree_def filter_update_key)

lemma outside_update [simp]:
  "under d p \<Longrightarrow> outside d (AList.update p n fs) = outside d fs"
  by (simp add: outside_def filter_update_key [where Q = "\<lambda>k. \<not> under d k"])

lemma map_of_filter_key:
  "map_of (filter (\<lambda>e. Q (fst e)) al) k = (if Q k then map_of al k else None)"
  by (induction al) auto

lemma map_of_subtree [simp]: "under d p \<Longrightarrow> map_of (subtree d fs) p = map_of fs p"
  by (simp add: subtree_def map_of_filter_key)

lemma map_of_outside: "\<not> under d p \<Longrightarrow> map_of (outside d fs) p = map_of fs p"
  by (simp add: outside_def map_of_filter_key [where Q = "\<lambda>k. \<not> under d k"])

lemma subtree_snoc [simp]:
  "under d p \<Longrightarrow> subtree d fs @ [(p, n)] = subtree d (fs @ [(p, n)])"
  by (simp add: subtree_def)

lemma outside_snoc [simp]:
  "under d p \<Longrightarrow> outside d (fs @ [(p, n)]) = outside d fs"
  by (simp add: outside_def)

lemma is_dir_subtree [simp]: "under d p \<Longrightarrow> is_dir (subtree d fs) p = is_dir fs p"
  by (simp add: is_dir_def)

lemma path_exists_subtree [simp]: "under d p \<Longrightarrow> path_exists (subtree d fs) p = path_exists fs p"
  by (simp add: path_exists_def)

lemma read_file_subtree [simp]: "under d p \<Longrightarrow> read_file (subtree d fs) p = read_file fs p"
  by (simp add: read_file_def)

lemma write_file_subtree [simp]:
  "under d p \<Longrightarrow> write_file p w (subtree d fs) = subtree d (write_file p w fs)"
  by (simp add: write_file_def split: option.splits)

lemma write_file_outside [simp]:
  "under d p \<Longrightarrow> outside d (write_file p w fs) = outside d fs"
  by (simp add: write_file_def split: option.splits)

lemma fold_update_subtree:
  "under d t \<Longrightarrow>
   fold (\<lambda>(n, c). AList.update (t @ [n]) (File c)) files (subtree d fs) =
   subtree d (fold (\<lambda>(n, c). AList.update (t @ [n]) (File c)) files fs)"
  by (induction files arbitrary: fs) (auto simp: case_prod_beta)

lemma fold_update_outside:
  "under d t \<Longrightarrow>
   outside d (fold (\<lambda>(n, c). AList.update (t @ [n]) (File c)) files fs) = outside d fs"
  by (induction files arbitrary: fs) (auto simp: case_prod_beta)

lemma write_dir_subtree [simp]:
  "under d t \<Longrightarrow> write_dir t w (subtree d fs) = subtree d (write_dir t w fs)"
  by (simp add: write_dir_def fold_update_subtree split: option.splits)

lemma write_dir_outside [simp]:
  "under d t \<Longrightarrow> outside d (write_dir t w fs) = outside d fs"
  by (simp add: write_dir_def fold_update_outside split: option.splits)

lemma files_in_subtree [simp]: "under d t \<Longrightarrow> files_in (subtree d fs) t = files_in fs t"
proof (induction fs t rule: files_in.induct)
  case (2 p c fs t)
  then show ?case by (auto simp: subtree_def dest: under_butlast)
qed (auto simp: subtree_def)

lemma glob_bin_subtree [simp]: "under d t \<Longrightarrow> glob_bin (subtree d fs) t = glob_bin fs t"
proof -
  assume u: "under d t"
  have "filter (\<lambda>p. p \<noteq> [] \<and> butlast p = t \<and> ends_with ''.bin'' (last p)) (map fst (subtree d fs))
      = filter (\<lambda>p. p \<noteq> [] \<and> butlast p = t \<and> ends_with ''.bin'' (last p)) (map fst fs)"
    using u by (induction fs) (auto simp: subtree_def dest: under_butlast)
  with u show ?thesis by (simp add: glob_bin_def)
qed

lemma glob_bin_under: "under d t \<Longrightarrow> p \<in> set (glob_bin fs t) \<Longrightarrow> under d p"
  by (auto simp: glob_bin_def dest: under_butlast split: if_splits)

lemma glob_bin_nonempty: "p \<in> set (glob_bin fs t) \<Longrightarrow> p \<noteq> []"
  by (auto simp: glob_bin_def split: if_splits)

lemma shutil_copy_subtree:
  assumes "under d src" and "dst \<noteq> []" and "under d (butlast dst)"
  shows "shutil_copy (subtree d fs) src dst = map_sum id (subtree d) (shutil_copy fs src dst)"
proof -
  have dst: "under d dst" using assms by (simp add: under_butlast)
  define dst' where "dst' = (if is_dir fs dst then dst @ [last src] else dst)"
  have u1: "under d dst'" using dst by (simp add: dst'_def)
  have u2: "under d (butlast dst')" using dst assms by (simp add: dst'_def)
  have l: "shutil_copy (subtree d fs) src dst =
     (if path_exists fs src \<and> src = dst' then Inl SameFileError
         else case map_of fs src of
                None \<Rightarrow> Inl FileNotFoundError
              | Some Dir \<Rightarrow> Inl IsADirectoryError
              | Some (File c) \<Rightarrow>
                  if is_dir fs dst' then Inl IsADirectoryError
                  else if \<not> path_exists fs (butlast dst') then Inl FileNotFoundError
                  else if \<not> is_dir fs (butlast dst') then Inl NotADirectoryError
                  else Inr (subtree d (AList.update dst' (File c) fs)))"
    unfolding shutil_copy_def Let_def
    using assms(1) dst u1 u2
    by (simp only: is_dir_subtree path_exists_subtree map_of_subtree subtree_update
        dst'_def [symmetric])
  have r: "shutil_copy fs src dst =
     (if path_exists fs src \<and> src = dst' then Inl SameFileError
         else case map_of fs src of
                None \<Rightarrow> Inl FileNotFoundError
              | Some Dir \<Rightarrow> Inl IsADirectoryError
              | Some (File c) \<Rightarrow>
                  if is_dir fs dst' then Inl IsADirectoryError
                  else if \<not> path_exists fs (butlast dst') then Inl FileNotFoundError
                  else if \<not> is_dir fs (butlast dst') then Inl NotADirectoryError
                  else Inr (AList.update dst' (File c) fs))"
    unfolding shutil_copy_def Let_def by (simp only: dst'_def [symmetric])
  show ?thesis
    unfolding l r by (auto split: option.split node.split)
qed

lemma shutil_copy_outside:
  assumes "dst \<noteq> []" and "under d (butlast dst)" and "shutil_copy fs src dst = Inr fs'"
  shows "outside d fs' = outside d fs"
proof -
  have dst: "under d dst" using assms by (simp add: under_butlast)
  define dst' where "dst' = (if is_dir fs dst then dst @ [last src] else dst)"
  have u1: "under d dst'" using dst by (simp add: dst'_def)
  have r: "shutil_copy fs src dst =
     (if path_exists fs src \<and> src = dst' then Inl SameFileError
         else case map_of fs src of
                None \<Rightarrow> Inl FileNotFoundError
              | Some Dir \<Rightarrow> Inl IsADirectoryError
              | Some (File c) \<Rightarrow>
                  if is_dir fs dst' then Inl IsADirectoryError
                  else if \<not> path_exists fs (butlast dst') then Inl FileNotFoundError
                  else if \<not> is_dir fs (butlast dst') then Inl NotADirectoryError
                  else Inr (AList.update dst' (File c) fs))"
    unfolding shutil_copy_def Let_def by (simp only: dst'_def [symmetric])
  from assms(3) obtain c where "fs' = AList.update dst' (File c) fs"
    unfolding r by (auto split: if_splits option.splits node.splits)
  with u1 show ?thesis by simp
qed

subsection \<open>\<^verbatim>\<open>convert_open_unmix_2stems.py\<close>: one stem at a time\<close>

lemma copy_weight_files_subtree:
  assumes "under d stem_dir" and "\<forall>w \<in> set ws. under d w"
  shows "copy_weight_files (subtree d fs) ws stem_dir
       = apsnd (subtree d) (copy_weight_files fs ws stem_dir)"
  using assms
proof (induction ws arbitrary: fs)
  case Nil
  then show ?case by simp
next
  case (Cons w ws)
  then have "shutil_copy (subtree d fs) w (stem_dir @ [last w])
      = map_sum id (subtree d) (shutil_copy fs w (stem_dir @ [last w]))"
    by (intro shutil_copy_subtree) simp_all
  with Cons show ?case
    by (cases "shutil_copy fs w (stem_dir @ [last w])") simp_all
qed

lemma copy_weight_files_outside:
  assumes "under d stem_dir"
  shows "outside d (snd (copy_weight_files fs ws stem_dir)) = outside d fs"
  using assms
proof (induction ws arbitrary: fs)
  case Nil
  then show ?case by simp
next
  case (Cons w ws)
  show ?case
  proof (cases "shutil_copy fs w (stem_dir @ [last w])")
    case (Inl e)
    then show ?thesis by simp
  next
    case (Inr fs')
    with Cons.prems have "outside d fs' = outside d fs"
      by (intro shutil_copy_outside [where dst = "stem_dir @ [last w]" and src = w]) simp_all
    with Inr Cons show ?thesis by simp
  qed
qed

lemma stage_model_files_subtree:
  assumes "under d tfjs_path" and "under d stem_dir"
  shows "stage_model_files (subtree d fs) tfjs_path stem_dir
       = apsnd (subtree d) (stage_model_files fs tfjs_path stem_dir)"
proof (cases "path_exists fs (tfjs_path @ [''model.json''])")
  case False
  with assms show ?thesis by (simp add: stage_model_files_def Let_def)
next
  case True
  have cp: "shutil_copy (subtree d fs) (tfjs_path @ [''model.json'']) (stem_dir @ [''model.json''])
      = map_sum id (subtree d)
          (shutil_copy fs (tfjs_path @ [''model.json'']) (stem_dir @ [''model.json'']))"
    using assms by (intro shutil_copy_subtree) simp_all
  show ?thesis
  proof (cases "shutil_copy fs (tfjs_path @ [''model.json'']) (stem_dir @ [''model.json''])")
    case (Inl e)
    with True cp assms show ?thesis by (simp add: stage_model_files_def Let_def)
  next
    case (Inr fs1)
    have "copy_weight_files (subtree d fs1) (glob_bin fs1 tfjs_path) stem_dir
        = apsnd (subtree d) (copy_weight_files fs1 (glob_bin fs1 tfjs_path) stem_dir)"
      using assms by (intro copy_weight_files_subtree) (auto dest: glob_bin_under)
    with True cp Inr assms show ?thesis
      by (simp add: stage_model_files_def Let_def split: prod.splits sum.splits)
  qed
qed

lemma stage_model_files_outside:
  assumes "under d tfjs_path" and "under d stem_dir"
  shows "outside d (snd (stage_model_files fs tfjs_path stem_dir)) = outside d fs"
proof (cases "shutil_copy fs (tfjs_path @ [''model.json'']) (stem_dir @ [''model.json''])")
  case (Inl e)
  then show ?thesis by (simp add: stage_model_files_def Let_def)
next
  case (Inr fs1)
  with assms have a: "outside d fs1 = outside d fs"
    by (intro shutil_copy_outside [where dst = "stem_dir @ [''model.json'']"
          and src = "tfjs_path @ [''model.json'']"]) simp_all
  obtain r fs2 where c: "copy_weight_files fs1 (glob_bin fs1 tfjs_path) stem_dir = (r, fs2)"
    by (cases "copy_weight_files fs1 (glob_bin fs1 tfjs_path) stem_dir")
  have "outside d (snd (copy_weight_files fs1 (glob_bin fs1 tfjs_path) stem_dir))
      = outside d fs1"
    using assms by (simp add: copy_weight_files_outside)
  with c a have b: "outside d fs2 = outside d fs" by simp
  show ?thesis
    by (cases r) (simp_all add: stage_model_files_def Let_def Inr c b)
qed

lemma convert_pytorch_to_onnx_2stems_subtree:
  "under d stem_dir \<Longrightarrow>
   convert_pytorch_to_onnx_2stems env m stem_dir s (subtree d fs)
     = apsnd (subtree d) (convert_pytorch_to_onnx_2stems env m stem_dir s fs)"
  by (simp add: convert_pytorch_to_onnx_2stems_def export_call_2stems_def Let_def
      split: prod.splits option.splits)

lemma convert_pytorch_to_onnx_2stems_outside:
  "under d stem_dir \<Longrightarrow>
   outside d (snd (convert_pytorch_to_onnx_2stems env m stem_dir s fs)) = outside d fs"
  by (simp add: convert_pytorch_to_onnx_2stems_def export_call_2stems_def Let_def
      split: prod.splits option.splits)

lemma convert_pytorch_to_onnx_2stems_path:
  "convert_pytorch_to_onnx_2stems env m stem_dir s fs = (Inr p, fs') \<Longrightarrow>
   p = stem_dir @ [s @ ''.onnx'']"
  by (auto simp: convert_pytorch_to_onnx_2stems_def export_call_2stems_def Let_def
      split: prod.splits option.splits)

lemma convert_onnx_to_tfjs_2stems_subtree:
  "under d onnx_path \<Longrightarrow> under d stem_dir \<Longrightarrow>
   convert_onnx_to_tfjs_2stems env onnx_path stem_dir (subtree d fs)
     = apsnd (subtree d) (convert_onnx_to_tfjs_2stems env onnx_path stem_dir fs)"
  by (simp add: convert_onnx_to_tfjs_2stems_def Let_def
      split: prod.splits option.splits sum.splits)

lemma convert_onnx_to_tfjs_2stems_outside:
  "under d stem_dir \<Longrightarrow>
   outside d (snd (convert_onnx_to_tfjs_2stems env onnx_path stem_dir fs)) = outside d fs"
  by (simp add: convert_onnx_to_tfjs_2stems_def Let_def
      split: prod.splits option.splits sum.splits)

lemma convert_onnx_to_tfjs_2stems_path:
  "convert_onnx_to_tfjs_2stems env onnx_path stem_dir fs = (Inr p, fs') \<Longrightarrow>
   p = stem_dir @ [''tfjs_model'']"
  by (auto simp: convert_onnx_to_tfjs_2stems_def Let_def
      split: prod.splits option.splits sum.splits)

lemma convert_stem_subtree:
  "convert_stem env d s (subtree d fs) = apsnd (subtree d) (convert_stem env d s fs)"
proof (cases "umx env s")
  case (Inl e)
  then show ?thesis by (simp add: convert_stem_def)
next
  case (Inr m)
  obtain r1 fs1 where c1: "convert_pytorch_to_onnx_2stems env m d s fs = (r1, fs1)"
    by (cases "convert_pytorch_to_onnx_2stems env m d s fs")
  then have c1': "convert_pytorch_to_onnx_2stems env m d s (subtree d fs) = (r1, subtree d fs1)"
    by (simp add: convert_pytorch_to_onnx_2stems_subtree)
  show ?thesis
  proof (cases r1)
    case (Inl e)
    with Inr c1 c1' show ?thesis by (simp add: convert_stem_def)
  next
    case p: (Inr onnx_path)
    with c1 have op: "onnx_path = d @ [s @ ''.onnx'']"
      by (simp add: convert_pytorch_to_onnx_2stems_path)
    obtain r2 fs2 where c2: "convert_onnx_to_tfjs_2stems env onnx_path d fs1 = (r2, fs2)"
      by (cases "convert_onnx_to_tfjs_2stems env onnx_path d fs1")
    then have c2': "convert_onnx_to_tfjs_2stems env onnx_path d (subtree d fs1)
        = (r2, subtree d fs2)"
      by (simp add: convert_onnx_to_tfjs_2stems_subtree op)
    show ?thesis
    proof (cases r2)
      case (Inl e)
      with Inr c1 c1' p c2 c2' show ?thesis by (simp add: convert_stem_def)
    next
      case t: (Inr tfjs_path)
      with c2 have tp: "tfjs_path = d @ [''tfjs_model'']"
        by (simp add: convert_onnx_to_tfjs_2stems_path)
      have "stage_model_files (subtree d fs2) tfjs_path d
          = apsnd (subtree d) (stage_model_files fs2 tfjs_path d)"
        by (simp add: stage_model_files_subtree tp)
      with Inr c1 c1' p c2 c2' t show ?thesis by (simp add: convert_stem_def)
    qed
  qed
qed

lemma convert_stem_outside:
  "outside d (snd (convert_stem env d s fs)) = outside d fs"
proof (cases "umx env s")
  case (Inl e)
  then show ?thesis by (simp add: convert_stem_def)
next
  case (Inr m)
  obtain r1 fs1 where c1: "convert_pytorch_to_onnx_2stems env m d s fs = (r1, fs1)"
    by (cases "convert_pytorch_to_onnx_2stems env m d s fs")
  have "outside d (snd (convert_pytorch_to_onnx_2stems env m d s fs)) = outside d fs"
    by (simp add: convert_pytorch_to_onnx_2stems_outside)
  with c1 have o1: "outside d fs1 = outside d fs" by simp
  show ?thesis
  proof (cases r1)
    case (Inl e)
    with Inr c1 o1 show ?thesis by (simp add: convert_stem_def)
  next
    case p: (Inr onnx_path)
    obtain r2 fs2 where c2: "convert_onnx_to_tfjs_2stems env onnx_path d fs1 = (r2, fs2)"
      by (cases "convert_onnx_to_tfjs_2stems env onnx_path d fs1")
    have "outside d (snd (convert_onnx_to_tfjs_2stems env onnx_path d fs1)) = outside d fs1"
      by (simp add: convert_onnx_to_tfjs_2stems_outside)
    with c2 o1 have o2: "outside d fs2 = outside d fs" by simp
    show ?thesis
    proof (cases r2)
      case (Inl e)
      with Inr c1 p c2 o2 show ?thesis by (simp add: convert_stem_def)
    next
      case t: (Inr tfjs_path)
      with c2 have tp: "tfjs_path = d @ [''tfjs_model'']"
        by (simp add: convert_onnx_to_tfjs_2stems_path)
      have "outside d (snd (stage_model_files fs2 tfjs_path d)) = outside d fs2"
        by (simp add: stage_model_files_outside tp)
      with Inr c1 p c2 t o2 show ?thesis by (simp add: convert_stem_def)
    qed
  qed
qed

lemma shutil_copy_exception: "shutil_copy fs src dst = Inl e \<Longrightarrow> is_Exception e"
  unfolding shutil_copy_def Let_def
  by (auto split: if_splits option.splits node.splits)

lemma copy_weight_files_exception:
  "copy_weight_files fs ws stem_dir = (Inl e, fs') \<Longrightarrow> is_Exception e"
proof (induction ws arbitrary: fs)
  case Nil
  then show ?case by simp
next
  case (Cons w ws)
  then show ?case
    by (cases "shutil_copy fs w (stem_dir @ [last w])") (auto dest: shutil_copy_exception)
qed

lemma stage_model_files_exception:
  "stage_model_files fs tfjs_path stem_dir = (Inl e, fs') \<Longrightarrow> is_Exception e"
  unfolding stage_model_files_def Let_def
  by (auto split: if_splits sum.splits prod.splits
      dest: shutil_copy_exception copy_weight_files_exception)

lemma convert_pytorch_to_onnx_2stems_exception:
  "no_interrupt env \<Longrightarrow> convert_pytorch_to_onnx_2stems env m d s fs = (Inl e, fs') \<Longrightarrow>
   is_Exception e"
  unfolding convert_pytorch_to_onnx_2stems_def Let_def no_interrupt_def
  by (auto split: prod.splits option.splits)

lemma read_file_exception: "read_file fs p = Inl e \<Longrightarrow> is_Exception e"
  by (auto simp: read_file_def split: option.splits node.splits)

lemma convert_onnx_to_tfjs_2stems_exception:
  assumes "no_interrupt env"
    and "convert_onnx_to_tfjs_2stems env onnx_path d fs = (Inl e, fs')"
  shows "is_Exception e"
proof -
  from assms(1) have
    a: "\<And>b e. onnx_load env b = Inl e \<Longrightarrow> is_Exception e" and
    b: "\<And>g e. prepare env g = Inl e \<Longrightarrow> is_Exception e" and
    c: "\<And>r w e. export_graph env r = (w, Some e) \<Longrightarrow> is_Exception e" and
    d: "\<And>f w e. convert_tf_saved_model env f = (w, Some e) \<Longrightarrow> is_Exception e"
    by (auto simp: no_interrupt_def)
  from assms(2) show ?thesis
    unfolding convert_onnx_to_tfjs_2stems_def Let_def
    by (auto split: sum.splits prod.splits option.splits
        dest: read_file_exception a b c d)
qed

lemma convert_stem_exception:
  assumes "no_interrupt env" and "convert_stem env d s fs = (Inl e, fs')"
  shows "is_Exception e"
proof -
  from assms(1) have a: "\<And>s e. umx env s = Inl e \<Longrightarrow> is_Exception e"
    by (auto simp: no_interrupt_def)
  from assms(2) show ?thesis
    unfolding convert_stem_def
    by (auto split: sum.splits prod.splits
        dest: a convert_pytorch_to_onnx_2stems_exception [OF assms(1)]
          convert_onnx_to_tfjs_2stems_exception [OF assms(1)]
          stage_model_files_exception)
qed

lemma path_mkdir_stem_dir:
  assumes "is_dir fs b"
  shows "path_mkdir False True fs (b @ [s]) =
     (if \<not> path_exists fs (b @ [s]) then Inr (fs @ [(b @ [s], Dir)])
      else if is_dir fs (b @ [s]) then Inr fs
      else Inl FileExistsError)"
proof -
  from assms have "path_exists fs b" by (auto simp: is_dir_def path_exists_def)
  with assms have "os_mkdir fs (b @ [s]) =
      (if path_exists fs (b @ [s]) then Inl FileExistsError else Inr (fs @ [(b @ [s], Dir)]))"
    by (simp add: os_mkdir_def)
  then show ?thesis
    by (subst path_mkdir.simps) simp
qed

lemma process_stem_ok:
  assumes "no_interrupt env" and "is_dir fs b" and "\<not> is_file fs (b @ [t])"
  shows "\<exists>st fs'. process_stem env b t fs = (Inr st, fs')"
proof -
  from assms(3) have nf: "path_exists fs (b @ [t]) \<Longrightarrow> is_dir fs (b @ [t])"
    by (auto simp: is_file_def is_dir_def path_exists_def split: option.splits node.splits)
  have "\<exists>fs1. path_mkdir False True fs (b @ [t]) = Inr fs1"
    using nf by (cases "path_exists fs (b @ [t])") (simp_all add: path_mkdir_stem_dir [OF assms(2)])
  then obtain fs1 where m: "path_mkdir False True fs (b @ [t]) = Inr fs1" ..
  obtain r fs2 where c: "convert_stem env (b @ [t]) t fs1 = (r, fs2)"
    by (cases "convert_stem env (b @ [t]) t fs1")
  show ?thesis
  proof (cases r)
    case (Inl e)
    with c assms(1) have "is_Exception e" by (auto dest: convert_stem_exception)
    with Inl c m show ?thesis by (simp add: process_stem_def)
  next
    case (Inr st)
    with c m show ?thesis by (simp add: process_stem_def)
  qed
qed

lemma process_stem_outside:
  assumes "is_dir fs b"
  shows "outside (b @ [t]) (snd (process_stem env b t fs)) = outside (b @ [t]) fs"
proof (cases "path_mkdir False True fs (b @ [t])")
  case (Inl e)
  then show ?thesis by (simp add: process_stem_def)
next
  case (Inr fs1)
  then have o1: "outside (b @ [t]) fs1 = outside (b @ [t]) fs"
    by (auto simp: path_mkdir_stem_dir [OF assms] split: if_splits)
  obtain r fs2 where c: "convert_stem env (b @ [t]) t fs1 = (r, fs2)"
    by (cases "convert_stem env (b @ [t]) t fs1")
  have "outside (b @ [t]) (snd (convert_stem env (b @ [t]) t fs1)) = outside (b @ [t]) fs1"
    by (rule convert_stem_outside)
  with o1 c have "outside (b @ [t]) fs2 = outside (b @ [t]) fs" by simp
  with Inr c show ?thesis
    by (cases r) (simp_all add: process_stem_def)
qed

lemma process_stem_local:
  assumes "is_dir fsa b" and "is_dir fsb b"
    and "subtree (b @ [t]) fsa = subtree (b @ [t]) fsb"
  shows "fst (process_stem env b t fsa) = fst (process_stem env b t fsb)
       \<and> subtree (b @ [t]) (snd (process_stem env b t fsa))
         = subtree (b @ [t]) (snd (process_stem env b t fsb))"
proof -
  let ?d = "b @ [t]"
  have m: "map_of fsa ?d = map_of fsb ?d"
    using assms(3) by (metis map_of_subtree under_self)
  then have pe: "path_exists fsa ?d = path_exists fsb ?d" and di: "is_dir fsa ?d = is_dir fsb ?d"
    by (simp_all add: path_exists_def is_dir_def)
  show ?thesis
  proof (cases "path_mkdir False True fsa ?d")
    case (Inl e)
    then have "path_mkdir False True fsb ?d = Inl e"
      using pe di by (simp add: path_mkdir_stem_dir assms(1,2) split: if_splits)
    with Inl assms(3) show ?thesis by (simp add: process_stem_def)
  next
    case (Inr fsa1)
    then obtain fsb1 where b1: "path_mkdir False True fsb ?d = Inr fsb1"
      and s1: "subtree ?d fsa1 = subtree ?d fsb1"
      using pe di assms(3)
      by (auto simp: path_mkdir_stem_dir assms(1,2) subtree_snoc [symmetric]
          simp del: subtree_snoc split: if_splits)
    have ca: "convert_stem env ?d t (subtree ?d fsa1) = apsnd (subtree ?d) (convert_stem env ?d t fsa1)"
      by (rule convert_stem_subtree)
    have cb: "convert_stem env ?d t (subtree ?d fsb1) = apsnd (subtree ?d) (convert_stem env ?d t fsb1)"
      by (rule convert_stem_subtree)
    from ca cb s1 have eq: "apsnd (subtree ?d) (convert_stem env ?d t fsa1)
        = apsnd (subtree ?d) (convert_stem env ?d t fsb1)"
      by simp
    obtain ra fa where a: "convert_stem env ?d t fsa1 = (ra, fa)"
      by (cases "convert_stem env ?d t fsa1")
    obtain rb fb where b: "convert_stem env ?d t fsb1 = (rb, fb)"
      by (cases "convert_stem env ?d t fsb1")
    from eq a b have "ra = rb" and "subtree ?d fa = subtree ?d fb" by simp_all
    with a b Inr b1 show ?thesis
      by (cases rb) (simp_all add: process_stem_def)
  qed
qed

lemma subtree_outside_sibling:
  "s \<noteq> t \<Longrightarrow> subtree (b @ [s]) (outside (b @ [t]) fs) = subtree (b @ [s]) fs"
  unfolding subtree_def outside_def filter_filter
  by (rule filter_cong) (auto dest: under_sibling)

lemma outside_sibling:
  assumes "outside (b @ [t]) fs' = outside (b @ [t]) fs" and "s \<noteq> t"
  shows "subtree (b @ [s]) fs' = subtree (b @ [s]) fs"
  by (metis assms subtree_outside_sibling)

lemma outside_base:
  assumes "outside (b @ [t]) fs' = outside (b @ [t]) fs"
  shows "map_of fs' b = map_of fs b"
  by (metis assms map_of_outside not_under_base)

lemma is_file_subtree_eq:
  "subtree d fs' = subtree d fs \<Longrightarrow> is_file fs' d = is_file fs d"
  by (metis is_file_def map_of_subtree under_self)

lemma os_mkdir_Inr:
  "os_mkdir fs p = Inr fs' \<Longrightarrow> fs' = fs @ [(p, Dir)] \<and> map_of fs p = None \<and> p \<noteq> []"
  by (auto simp: os_mkdir_def path_exists_def split: if_splits)

lemma path_mkdir_is_dir:
  "path_mkdir parents exist_ok fs p = Inr fs' \<Longrightarrow> is_dir fs' p"
proof (induction parents exist_ok fs p arbitrary: fs' rule: path_mkdir.induct)
  case (1 parents exist_ok fs p)
  show ?case
  proof (cases "os_mkdir fs p")
    case (Inr fs'')
    with "1.prems" have "fs' = fs''" by (subst (asm) path_mkdir.simps) simp
    with Inr show ?thesis by (auto simp: is_dir_def map_add_def dest!: os_mkdir_Inr)
  next
    case (Inl e)
    show ?thesis
    proof (cases "e = FileNotFoundError")
      case True
      with Inl "1.prems" have np: "\<not> (\<not> parents \<or> p = [])"
        by (subst (asm) path_mkdir.simps) (auto split: if_splits)
      with Inl True "1.prems" obtain fs1 where
        a: "path_mkdir True True fs (butlast p) = Inr fs1" and
        b: "path_mkdir False exist_ok fs1 p = Inr fs'"
        by (subst (asm) path_mkdir.simps) (auto split: sum.splits)
      from "1.IH"(2) [OF Inl True np a b] show ?thesis .
    next
      case False
      with Inl "1.prems" show ?thesis
        by (subst (asm) path_mkdir.simps) (auto split: if_splits)
    qed
  qed
qed

lemma path_mkdir_deeper:
  "path_mkdir parents exist_ok fs p = Inr fs' \<Longrightarrow> length p < length q \<Longrightarrow>
   map_of fs' q = map_of fs q"
proof (induction parents exist_ok fs p arbitrary: fs' rule: path_mkdir.induct)
  case (1 parents exist_ok fs p)
  show ?case
  proof (cases "os_mkdir fs p")
    case (Inr fs'')
    with "1.prems" have "fs' = fs''" by (subst (asm) path_mkdir.simps) simp
    with Inr "1.prems"(2) show ?thesis
      by (auto simp: map_add_def dest!: os_mkdir_Inr split: option.splits)
  next
    case (Inl e)
    show ?thesis
    proof (cases "e = FileNotFoundError")
      case True
      with Inl "1.prems" have np: "\<not> (\<not> parents \<or> p = [])"
        by (subst (asm) path_mkdir.simps) (auto split: if_splits)
      with Inl True "1.prems" obtain fs1 where
        a: "path_mkdir True True fs (butlast p) = Inr fs1" and
        b: "path_mkdir False exist_ok fs1 p = Inr fs'"
        by (subst (asm) path_mkdir.simps) (auto split: sum.splits)
      from "1.prems"(2) have "length (butlast p) < length q" by simp
      from "1.IH"(1) [OF Inl True np a this] "1.IH"(2) [OF Inl True np a b "1.prems"(2)]
      show ?thesis by simp
    next
      case False
      with Inl "1.prems" show ?thesis
        by (subst (asm) path_mkdir.simps) (auto split: if_splits)
    qed
  qed
qed

lemma stems_loop_isolated:
  assumes "no_interrupt env" and "distinct stems" and "is_dir fs b"
    and "\<forall>t \<in> set stems. \<not> is_file fs (b @ [t])"
  shows "\<exists>log' fs'. stems_loop env b stems log fs = (Inr (log @ log'), fs')
       \<and> map fst log' = stems
       \<and> map (\<lambda>e. Inr (snd e)) log' = map (\<lambda>t. fst (process_stem env b t fs)) stems
       \<and> (\<forall>t \<in> set stems.
            subtree (b @ [t]) fs' = subtree (b @ [t]) (snd (process_stem env b t fs)))
       \<and> (\<forall>u. u \<notin> set stems \<longrightarrow> subtree (b @ [u]) fs' = subtree (b @ [u]) fs)
       \<and> is_dir fs' b"
  using assms
proof (induction stems arbitrary: fs log)
  case Nil
  then show ?case by simp
next
  case (Cons t rest)
  from Cons.prems obtain st fs1 where p: "process_stem env b t fs = (Inr st, fs1)"
    using process_stem_ok [of env fs b t] by auto
  have o: "outside (b @ [t]) fs1 = outside (b @ [t]) fs"
    using process_stem_outside [OF Cons.prems(3), of t env] p by simp
  have d1: "is_dir fs1 b"
    using outside_base [OF o] Cons.prems(3) by (simp add: is_dir_def)
  have sib: "\<And>u. u \<noteq> t \<Longrightarrow> subtree (b @ [u]) fs1 = subtree (b @ [u]) fs"
    using outside_sibling [OF o] by simp
  have nf: "\<forall>u \<in> set rest. \<not> is_file fs1 (b @ [u])"
  proof
    fix u assume u: "u \<in> set rest"
    with Cons.prems(2) have "u \<noteq> t" by auto
    then have "is_file fs1 (b @ [u]) = is_file fs (b @ [u])"
      by (intro is_file_subtree_eq sib)
    with u Cons.prems(4) show "\<not> is_file fs1 (b @ [u])" by simp
  qed
  from Cons.prems(2) have dr: "distinct rest" and tn: "t \<notin> set rest" by simp_all
  from Cons.IH [OF Cons.prems(1) dr d1 nf, of "log @ [(t, st)]"]
  obtain log'' fs' where
    l: "stems_loop env b rest (log @ [(t, st)]) fs1 = (Inr ((log @ [(t, st)]) @ log''), fs')" and
    k: "map fst log'' = rest" and
    r: "map (\<lambda>e. Inr (snd e)) log'' = map (\<lambda>u. fst (process_stem env b u fs1)) rest" and
    s: "\<forall>u \<in> set rest.
          subtree (b @ [u]) fs' = subtree (b @ [u]) (snd (process_stem env b u fs1))" and
    f: "\<forall>u. u \<notin> set rest \<longrightarrow> subtree (b @ [u]) fs' = subtree (b @ [u]) fs1" and
    d': "is_dir fs' b"
    by blast
  have loc: "\<And>u. u \<in> set rest \<Longrightarrow>
      fst (process_stem env b u fs1) = fst (process_stem env b u fs)
      \<and> subtree (b @ [u]) (snd (process_stem env b u fs1))
        = subtree (b @ [u]) (snd (process_stem env b u fs))"
  proof -
    fix u assume "u \<in> set rest"
    with tn have "u \<noteq> t" by auto
    then show "fst (process_stem env b u fs1) = fst (process_stem env b u fs)
      \<and> subtree (b @ [u]) (snd (process_stem env b u fs1))
        = subtree (b @ [u]) (snd (process_stem env b u fs))"
      by (intro process_stem_local d1 Cons.prems(3) sib)
  qed
  have 1: "stems_loop env b (t # rest) log fs = (Inr (log @ ((t, st) # log'')), fs')"
    using p l by simp
  have 2: "map fst ((t, st) # log'') = t # rest" using k by simp
  have 3: "map (\<lambda>e. Inr (snd e)) ((t, st) # log'')
      = map (\<lambda>u. fst (process_stem env b u fs)) (t # rest)"
    using p r loc by simp
  have 4: "\<forall>u \<in> set (t # rest).
      subtree (b @ [u]) fs' = subtree (b @ [u]) (snd (process_stem env b u fs))"
  proof
    fix u assume "u \<in> set (t # rest)"
    then consider "u = t" | "u \<in> set rest" by auto
    then show "subtree (b @ [u]) fs' = subtree (b @ [u]) (snd (process_stem env b u fs))"
    proof cases
      case 1
      with f tn p show ?thesis by simp
    next
      case 2
      with s loc show ?thesis by simp
    qed
  qed
  have 5: "\<forall>u. u \<notin> set (t # rest) \<longrightarrow> subtree (b @ [u]) fs' = subtree (b @ [u]) fs"
    using f sib by simp
  show ?case
    by (intro exI [of _ "(t, st) # log''"] exI [of _ fs'] conjI 1 2 3 4 5 d')
qed

lemma convert_stems_single:
  assumes "path_mkdir True True fs output_base_2stems = Inr fs0"
  shows "convert_stems env [t] fs =
     (case process_stem env output_base_2stems t fs0 of
        (Inl e, fs') \<Rightarrow> (Inl e, fs')
      | (Inr st, fs') \<Rightarrow> (Inr [(t, st)], fs'))"
  using assms by (simp add: convert_stems_def split: prod.splits sum.splits)

lemma output_base_ready:
  assumes "\<not> isl (path_mkdir True True fs b)"
    and "\<forall>t \<in> set stems. \<not> is_file fs (b @ [t])"
  obtains fs0 where "path_mkdir True True fs b = Inr fs0" and "is_dir fs0 b"
    and "\<forall>t \<in> set stems. \<not> is_file fs0 (b @ [t])"
proof -
  from assms(1) obtain fs0 where m: "path_mkdir True True fs b = Inr fs0"
    by (cases "path_mkdir True True fs b") simp_all
  have d0: "is_dir fs0 b" using m by (rule path_mkdir_is_dir)
  have nf: "\<forall>t \<in> set stems. \<not> is_file fs0 (b @ [t])"
  proof
    fix t assume "t \<in> set stems"
    with assms(2) have "\<not> is_file fs (b @ [t])" by simp
    moreover have "map_of fs0 (b @ [t]) = map_of fs (b @ [t])"
      using m by (rule path_mkdir_deeper) simp
    ultimately show "\<not> is_file fs0 (b @ [t])" by (simp add: is_file_def)
  qed
  from m d0 nf show ?thesis by (rule that)
qed

lemma convert_stems_returns:
  assumes "no_interrupt env" and "distinct stems"
    and "\<not> isl (path_mkdir True True fs output_base_2stems)"
    and "\<forall>t \<in> set stems. \<not> is_file fs (output_base_2stems @ [t])"
  shows "\<exists>log fs'. convert_stems env stems fs = (Inr log, fs') \<and> map fst log = stems"
proof -
  from assms(3,4) obtain fs0 where m: "path_mkdir True True fs output_base_2stems = Inr fs0"
    and d0: "is_dir fs0 output_base_2stems"
    and nf: "\<forall>t \<in> set stems. \<not> is_file fs0 (output_base_2stems @ [t])"
    by (rule output_base_ready)
  from stems_loop_isolated [OF assms(1,2) d0 nf, of "[]"] m show ?thesis
    by (auto simp: convert_stems_def)
qed


lemmas run_2stems_defs = convert_stems_def process_stem_def convert_stem_def
  convert_pytorch_to_onnx_2stems_def convert_onnx_to_tfjs_2stems_def stage_model_files_def
  export_call_2stems_def write_file_def write_dir_def read_file_def glob_bin_def
  shutil_copy_def path_exists_def is_dir_def is_file_def os_mkdir_def output_base_2stems_def
  ends_with_def Let_def path_mkdir.simps


subsection \<open>Exit status\<close>

lemma stage_model_files_umx_exception:
  "stage_model_files_umx fs tfjs_path stem_dir = (Inl e, fs') \<Longrightarrow> is_Exception e"
  unfolding stage_model_files_umx_def Let_def
  by (auto split: if_splits sum.splits
      dest: shutil_copy_exception copy_weight_files_exception)

lemma convert_onnx_umx_exception:
  assumes "no_interrupt env" and "convert_onnx_umx env onnx_path d fs = (Inl e, fs')"
  shows "is_Exception e"
proof -
  from assms(1) have
    c: "\<And>r w e. onnx2tf_convert env r = (w, Some e) \<Longrightarrow> is_Exception e" and
    d: "\<And>f w e. convert_tf_saved_model env f = (w, Some e) \<Longrightarrow> is_Exception e"
    by (auto simp: no_interrupt_def)
  from assms(2) show ?thesis
    unfolding convert_onnx_umx_def Let_def
    by (auto split: sum.splits prod.splits option.splits
        dest: read_file_exception c d stage_model_files_umx_exception)
qed

lemma tfjs_loop_returns:
  "no_interrupt env \<Longrightarrow> \<exists>log' fs'. tfjs_loop env b ms log fs = (Inr log', fs')"
proof (induction ms arbitrary: log fs)
  case Nil
  then show ?case by simp
next
  case (Cons m ms)
  obtain stem_name onnx_path where m: "m = (stem_name, onnx_path)" by (cases m)
  obtain r fs1 where c: "convert_onnx_umx env onnx_path (b @ [stem_name]) fs = (r, fs1)"
    by (cases "convert_onnx_umx env onnx_path (b @ [stem_name]) fs")
  show ?case
  proof (cases r)
    case (Inl e)
    with c Cons.prems have "is_Exception e" by (auto dest: convert_onnx_umx_exception)
    with Inl c m Cons show ?thesis by simp
  next
    case (Inr u)
    with c m Cons show ?thesis by simp
  qed
qed

lemma main_2stems_returns:
  assumes "no_interrupt env"
    and "\<not> isl (path_mkdir True True fs output_base_2stems)"
    and "\<not> is_file fs (output_base_2stems @ [''vocals''])"
    and "\<not> is_file fs (output_base_2stems @ [''accompaniment''])"
  shows "fst (main_2stems env fs) = 0"
proof -
  have "\<forall>t \<in> set [''vocals'', ''accompaniment'']. \<not> is_file fs (output_base_2stems @ [t])"
    using assms(3,4) by simp
  from convert_stems_returns [OF assms(1) _ assms(2) this]
  obtain log fs' where "convert_stems env [''vocals'', ''accompaniment''] fs = (Inr log, fs')"
    by auto
  then show ?thesis by (simp add: main_2stems_def convert_openunmix_2stems_def)
qed

lemma convert_umx_to_tfjs_exit:
  assumes "no_interrupt env"
    and "\<not> isl (path_mkdir True True fs output_base_2stems)"
    and "\<not> is_file fs (output_base_2stems @ [''vocals''])"
  shows "exit_status (fst (convert_umx_to_tfjs env m fs)) =
     (if snd (torch_onnx_export env
           (export_call_umx_to_tfjs m (output_base_2stems @ [''vocals'']) ''vocals'')) = None
      then 0 else 1)"
proof -
  let ?b = output_base_2stems
  let ?call = "export_call_umx_to_tfjs m (?b @ [''vocals'']) ''vocals''"
  have "\<forall>t \<in> set [''vocals'']. \<not> is_file fs (?b @ [t])" using assms(3) by simp
  with assms(2) obtain fs0 where m: "path_mkdir True True fs ?b = Inr fs0"
    and d0: "is_dir fs0 ?b"
    and nf: "\<forall>t \<in> set [''vocals'']. \<not> is_file fs0 (?b @ [t])"
    by (rule output_base_ready)
  from nf have "path_exists fs0 (?b @ [''vocals'']) \<Longrightarrow> is_dir fs0 (?b @ [''vocals''])"
    by (auto simp: is_file_def is_dir_def path_exists_def split: option.splits node.splits)
  then have "\<exists>fs1. path_mkdir False True fs0 (?b @ [''vocals'']) = Inr fs1"
    by (cases "path_exists fs0 (?b @ [''vocals''])") (simp_all add: path_mkdir_stem_dir [OF d0])
  then obtain fs1 where m1: "path_mkdir False True fs0 (?b @ [''vocals'']) = Inr fs1" ..
  obtain written raised where t: "torch_onnx_export env ?call = (written, raised)"
    by (cases "torch_onnx_export env ?call")
  show ?thesis
  proof (cases raised)
    case None
    obtain log fs' where "tfjs_loop env ?b [(''vocals'', ec_file ?call)] []
        (write_file (ec_file ?call) written fs1) = (Inr log, fs')"
      using tfjs_loop_returns [OF assms(1)] by blast
    with None t m m1 show ?thesis
      by (simp add: convert_umx_to_tfjs_def umx_to_tfjs_over_def Let_def)
  next
    case (Some e)
    with t assms(1) have "is_Exception e" by (auto simp: no_interrupt_def)
    with Some t m m1 show ?thesis
      by (simp add: convert_umx_to_tfjs_def umx_to_tfjs_over_def Let_def)
  qed
qed




subsection \<open>Staging\<close>

lemma shutil_copy_file:
  assumes "map_of fs src = Some (File c)" and "\<not> is_dir fs dst" and "is_dir fs (butlast dst)"
    and "src \<noteq> dst"
  shows "shutil_copy fs src dst = Inr (AList.update dst (File c) fs)"
proof -
  from assms(3) have "path_exists fs (butlast dst)"
    by (auto simp: is_dir_def path_exists_def)
  with assms show ?thesis by (simp add: shutil_copy_def)
qed

lemma map_of_update: "map_of (AList.update k v al) p = (if p = k then Some v else map_of al p)"
  by (simp add: update_conv')

lemma copy_weight_files_spec:
  assumes "is_dir fs sd"
    and "\<forall>w \<in> set ws. w \<noteq> [] \<and> butlast w = sd @ [x] \<and> is_file fs w
           \<and> \<not> is_dir fs (sd @ [last w])"
  shows "\<exists>fs'. copy_weight_files fs ws sd = (Inr (), fs')
       \<and> (\<forall>p. map_of fs' p =
             (if \<exists>w \<in> set ws. p = sd @ [last w] then map_of fs (sd @ [x, last p])
              else map_of fs p))"
  using assms
proof (induction ws arbitrary: fs)
  case Nil
  then show ?case by simp
next
  case (Cons w ws)
  from Cons.prems(2) have w: "w \<noteq> []" "butlast w = sd @ [x]" "is_file fs w"
    "\<not> is_dir fs (sd @ [last w])" by simp_all
  from w(1,2) have weq: "w = sd @ [x, last w]"
    by (metis append_butlast_last_id append.assoc append_Cons append_Nil)
  from w(3) obtain c where c: "map_of fs w = Some (File c)"
    by (auto simp: is_file_def split: option.splits node.splits)
  let ?k = "sd @ [last w]"
  let ?fs1 = "AList.update ?k (File c) fs"
  have ne: "w \<noteq> ?k" using weq by (metis append_same_eq list.inject not_Cons_self2 same_append_eq)
  have cp: "shutil_copy fs w ?k = Inr ?fs1"
    using c w(4) Cons.prems(1) ne by (intro shutil_copy_file) simp_all
  have d1: "is_dir ?fs1 sd"
    using Cons.prems(1) by (simp add: is_dir_def map_of_update)
  have deep: "\<And>n. map_of ?fs1 (sd @ [x, n]) = map_of fs (sd @ [x, n])"
    by (simp add: map_of_update)
  have pre: "\<forall>w' \<in> set ws. w' \<noteq> [] \<and> butlast w' = sd @ [x] \<and> is_file ?fs1 w'
           \<and> \<not> is_dir ?fs1 (sd @ [last w'])"
  proof
    fix w' assume "w' \<in> set ws"
    with Cons.prems(2) have w': "w' \<noteq> []" "butlast w' = sd @ [x]" "is_file fs w'"
      "\<not> is_dir fs (sd @ [last w'])" by simp_all
    from w'(1,2) have w'eq: "w' = sd @ [x, last w']"
      by (metis append_butlast_last_id append.assoc append_Cons append_Nil)
    have "map_of ?fs1 w' = map_of fs w'" by (subst w'eq, subst (2) w'eq) (rule deep)
    with w'(3) have "is_file ?fs1 w'" by (simp add: is_file_def)
    moreover have "\<not> is_dir ?fs1 (sd @ [last w'])"
      using w'(4) by (simp add: is_dir_def map_of_update)
    ultimately show "w' \<noteq> [] \<and> butlast w' = sd @ [x] \<and> is_file ?fs1 w'
           \<and> \<not> is_dir ?fs1 (sd @ [last w'])"
      using w'(1,2) by simp
  qed
  from Cons.IH [OF d1 pre] obtain fs' where
    r: "copy_weight_files ?fs1 ws sd = (Inr (), fs')" and
    m: "\<forall>p. map_of fs' p =
             (if \<exists>w \<in> set ws. p = sd @ [last w] then map_of ?fs1 (sd @ [x, last p])
              else map_of ?fs1 p)"
    by blast
  have "copy_weight_files fs (w # ws) sd = (Inr (), fs')" using cp r by simp
  moreover have "\<forall>p. map_of fs' p =
             (if \<exists>w' \<in> set (w # ws). p = sd @ [last w'] then map_of fs (sd @ [x, last p])
              else map_of fs p)"
  proof
    fix p
    have "map_of fs (sd @ [x, last w]) = Some (File c)" using c weq by simp
    then show "map_of fs' p =
             (if \<exists>w' \<in> set (w # ws). p = sd @ [last w'] then map_of fs (sd @ [x, last p])
              else map_of fs p)"
      using m deep by (auto simp: map_of_update)
  qed
  ultimately show ?case by blast
qed

lemma glob_bin_update_sibling:
  assumes "x \<noteq> y"
  shows "glob_bin (AList.update (sd @ [y]) (File c) fs) (sd @ [x]) = glob_bin fs (sd @ [x])"
proof -
  have k: "map fst (AList.update (sd @ [y]) (File c) fs) =
      (if sd @ [y] \<in> set (map fst fs) then map fst fs else map fst fs @ [sd @ [y]])"
    by (metis update_keys)
  have d: "is_dir (AList.update (sd @ [y]) (File c) fs) (sd @ [x]) = is_dir fs (sd @ [x])"
    using assms by (simp add: is_dir_def map_of_update)
  show ?thesis
    unfolding glob_bin_def d k using assms by simp
qed

lemma glob_bin_member:
  "w \<in> set (glob_bin fs t) \<Longrightarrow> w \<noteq> [] \<and> butlast w = t"
  by (auto simp: glob_bin_def split: if_splits)




subsection \<open>The weight cache and the checkpoint\<close>

lemma download_file_keeps:
  assumes "download_file net url f w = (r, w')" and "p \<noteq> f"
  shows "map_of (fst w') p = map_of (fst w) p"
  using assms
  by (auto simp: download_file_def write_file_def Let_def update_conv'
      split: prod.splits option.splits if_splits)

lemma download_file_requests:
  assumes "download_file net url f w = (r, w')"
  shows "snd w' = snd w @ [url]"
  using assms
  by (auto simp: download_file_def Let_def split: prod.splits option.splits if_splits)

text \<open>
  \<^verbatim>\<open>download_models.py\<close> never touches a path that exists when its loop starts, and
  requests only URLs whose file did not exist then.
\<close>

lemma download_models_loop_cache:
  assumes "download_models_loop net urls downloaded w = (r, w')"
  shows "(\<forall>p. path_exists (fst w) p \<longrightarrow> map_of (fst w') p = map_of (fst w) p)
       \<and> (\<forall>u \<in> set (snd w') - set (snd w). \<exists>stem. (stem, u) \<in> set urls
              \<and> \<not> path_exists (fst w) (output_dir_downloads @ [''umx_'' @ stem @ ''.pth'']))"
  using assms
proof (induction urls arbitrary: downloaded w)
  case Nil
  then show ?case by simp
next
  case (Cons su urls)
  obtain stem url where su: "su = (stem, url)" by (cases su)
  let ?f = "output_dir_downloads @ [''umx_'' @ stem @ ''.pth'']"
  show ?case
  proof (cases "path_exists (fst w) ?f")
    case True
    with Cons.prems su have "download_models_loop net urls (downloaded @ [?f]) w = (r, w')"
      by simp
    from Cons.IH [OF this] su show ?thesis by auto
  next
    case False
    obtain r1 w1 where d: "download_file net url ?f w = (r1, w1)"
      by (cases "download_file net url ?f w")
    have keep: "map_of (fst w1) p = map_of (fst w) p" if "path_exists (fst w) p" for p
      using download_file_keeps [OF d] that False by (cases "p = ?f") simp_all
    then have ex: "path_exists (fst w1) p" if "path_exists (fst w) p" for p
      using that by (simp add: path_exists_def)
    have req: "snd w1 = snd w @ [url]" using d by (rule download_file_requests)
    show ?thesis
    proof (cases r1)
      case (Inl e)
      with Cons.prems su False d have "w' = w1" by simp
      with keep req su False show ?thesis by auto
    next
      case (Inr ok)
      with Cons.prems su False d have
        "download_models_loop net urls (if ok then downloaded @ [?f] else downloaded) w1 = (r, w')"
        by (cases ok) simp_all
      from Cons.IH [OF this] have
        a: "\<forall>p. path_exists (fst w1) p \<longrightarrow> map_of (fst w') p = map_of (fst w1) p" and
        b: "\<forall>u \<in> set (snd w') - set (snd w1). \<exists>stem. (stem, u) \<in> set urls
              \<and> \<not> path_exists (fst w1) (output_dir_downloads @ [''umx_'' @ stem @ ''.pth''])"
        by simp_all
      have 1: "\<forall>p. path_exists (fst w) p \<longrightarrow> map_of (fst w') p = map_of (fst w) p"
        using a keep ex by simp
      have 2: "\<forall>u \<in> set (snd w') - set (snd w). \<exists>stem. (stem, u) \<in> set (su # urls)
              \<and> \<not> path_exists (fst w) (output_dir_downloads @ [''umx_'' @ stem @ ''.pth''])"
      proof
        fix u assume u: "u \<in> set (snd w') - set (snd w)"
        show "\<exists>stem. (stem, u) \<in> set (su # urls)
              \<and> \<not> path_exists (fst w) (output_dir_downloads @ [''umx_'' @ stem @ ''.pth''])"
        proof (cases "u \<in> set (snd w1)")
          case True
          with u req have "u = url" by auto
          with su False show ?thesis by auto
        next
          case False
          with u b obtain s where "(s, u) \<in> set urls"
            "\<not> path_exists (fst w1) (output_dir_downloads @ [''umx_'' @ s @ ''.pth''])"
            by blast
          with ex show ?thesis by auto
        qed
      qed
      from 1 2 show ?thesis by blast
    qed
  qed
qed

text \<open>
  Claim C6 at a cache that holds the vocals checkpoint while the host serves other bytes:
  \<^verbatim>\<open>download_and_convert.py\<close> requests the URL of the cached file again and overwrites the
  file, so that the weights it then loads differ from those of the first download;
  \<^verbatim>\<open>download_models.py\<close>, from the same state, requests only the missing file and leaves
  the cached one as it is.
\<close>

theorem download_and_convert_refetches_cached:
  "path_exists fs_cached_vocals [''downloaded_models'', ''umx_vocals.pth'']
   \<and> snd (snd (main_download_and_convert net_changed torch_load_state_dict (fs_cached_vocals, [])))
     = [''https://zenodo.org/record/3370489/files/umx_vocals.pth'',
        ''https://zenodo.org/record/3370489/files/umx_accompaniment.pth'']
   \<and> map_of (fst (snd (main_download_and_convert net_changed torch_load_state_dict
                         (fs_cached_vocals, []))))
       [''downloaded_models'', ''umx_vocals.pth''] = Some (File ''bytes served today'')
   \<and> map_of (the_models (fst (main_download_and_convert net_changed torch_load_state_dict
                         (fs_cached_vocals, [])))) ''vocals''
     = Some [(''fc1.weight'', ''bytes served today'')]
   \<and> snd (snd (main_download_models net_changed (fs_cached_vocals, [])))
     = [''https://zenodo.org/record/3370489/files/umx_accompaniment.pth?download=1'']
   \<and> map_of (fst (snd (main_download_models net_changed (fs_cached_vocals, []))))
       [''downloaded_models'', ''umx_vocals.pth''] = Some (File ''weights of the first download'')"
  by (simp add: main_download_and_convert_def main_download_models_def download_model_def
      download_file_def load_pytorch_model_def read_file_def write_file_def path_exists_def
      is_dir_def os_mkdir_def path_mkdir.simps output_dir_downloads_def
      MODEL_URLS_download_and_convert_def MODEL_URLS_download_models_def
      fs_cached_vocals_def net_changed_def torch_load_state_dict_def the_models_def Let_def)




end
